theory Spec2Isabelle
  imports Complex_Main "HOL-Library.Log_Nat"
begin

text \<open>
  A model of the review lifecycle of the GitHub pull-request review agent: the
  \<open>Review\<close> model and its methods, the retry loop and the response parser of the
  Gemini service, the duplicate check of the GitHub service, and the handlers
  \<open>handlePullRequest\<close>, \<open>processReviewAsync\<close> and \<open>retryReview\<close> of the webhook
  controller.

  An \<open>async\<close> function is a function from the state before the call to its outcome
  and the state after it. The outcome is \<open>Inr\<close> with the value returned or \<open>Inl\<close> with
  the error thrown; a \<open>try\<close> block and its \<open>catch\<close> block are two functions, the second
  applied to the \<open>Inl\<close> outcomes of the first. What the record store, GitHub, the
  model, the clock and the JavaScript runtime answer is given by an environment, over
  which the theorems quantify. Logging is left out.
\<close>

section \<open>JavaScript strings\<close>

text \<open>
  A JavaScript string is modelled as a HOL \<open>string\<close>, one \<open>char\<close> per byte of its
  UTF-8 encoding. The functions below are the \<open>String.prototype\<close> methods and the
  regular expressions that \<open>geminiService.js\<close> and the controller use.
\<close>

text \<open>\<open>s.indexOf(pat)\<close>; \<open>None\<close> is JavaScript's \<open>-1\<close>.\<close>

fun indexOf :: "string \<Rightarrow> string \<Rightarrow> nat option" where
  "indexOf pat [] = (if pat = [] then Some 0 else None)"
| "indexOf pat (c # cs) =
     (if take (length pat) (c # cs) = pat then Some 0
      else map_option Suc (indexOf pat cs))"

text \<open>\<open>s.lastIndexOf(pat)\<close>.\<close>

fun lastIndexOf :: "string \<Rightarrow> string \<Rightarrow> nat option" where
  "lastIndexOf pat [] = (if pat = [] then Some 0 else None)"
| "lastIndexOf pat (c # cs) =
     (case lastIndexOf pat cs of
        Some i \<Rightarrow> Some (Suc i)
      | None \<Rightarrow> if take (length pat) (c # cs) = pat then Some 0 else None)"

text \<open>\<open>s.includes(pat)\<close>.\<close>

definition str_includes :: "string \<Rightarrow> string \<Rightarrow> bool" where
  "str_includes s pat = (indexOf pat s \<noteq> None)"

text \<open>\<open>s.substring(a, b)\<close> for \<open>a \<le> b\<close>.\<close>

definition substring :: "string \<Rightarrow> nat \<Rightarrow> nat \<Rightarrow> string" where
  "substring s a b = take (b - a) (drop a s)"

text \<open>
  The characters of the class \<open>\s\<close> of a regular expression, which are also the
  ones \<open>trim()\<close> strips, each as its UTF-8 bytes: tab, line feed, vertical tab, form
  feed, carriage return, space, U+00A0, U+1680, U+2000 to U+200A, U+2028, U+2029,
  U+202F, U+205F, U+3000 and U+FEFF.
\<close>

definition space_codes :: "string list" where
  "space_codes =
     [[CHR 0x09], [CHR 0x0A], [CHR 0x0B], [CHR 0x0C], [CHR 0x0D], [CHR 0x20],
      [CHR 0xC2, CHR 0xA0], [CHR 0xE1, CHR 0x9A, CHR 0x80]]
     @ map (\<lambda>b. [CHR 0xE2, CHR 0x80, b])
         [CHR 0x80, CHR 0x81, CHR 0x82, CHR 0x83, CHR 0x84, CHR 0x85, CHR 0x86, CHR 0x87,
          CHR 0x88, CHR 0x89, CHR 0x8A, CHR 0xA8, CHR 0xA9, CHR 0xAF]
     @ [[CHR 0xE2, CHR 0x81, CHR 0x9F], [CHR 0xE3, CHR 0x80, CHR 0x80],
        [CHR 0xEF, CHR 0xBB, CHR 0xBF]]"

text \<open>
  The text left after the longest run, at its start, of characters whose byte
  sequences are listed in \<open>codes\<close>.
\<close>

function skip_codes :: "string list \<Rightarrow> string \<Rightarrow> string" where
  "skip_codes codes s =
     (case find (\<lambda>p. p \<noteq> [] \<and> take (length p) s = p) codes of
        Some p \<Rightarrow> skip_codes codes (drop (length p) s)
      | None \<Rightarrow> s)"
  by pat_completeness auto
termination
proof (relation "measure (\<lambda>(codes, s). length s)")
  fix codes :: "string list" and s p :: string
  assume "find (\<lambda>p. p \<noteq> [] \<and> take (length p) s = p) codes = Some p"
  then have p: "p \<noteq> []" "take (length p) s = p" by (auto simp: find_Some_iff)
  then have "s \<noteq> []" by auto
  with p(1) show "((codes, drop (length p) s), (codes, s)) \<in> measure (\<lambda>(codes, s). length s)"
    by simp
qed simp

declare skip_codes.simps [simp del]

text \<open>\<open>\s*\<close> at the start of a text, and \<open>trim()\<close>.\<close>

definition skip_spaces :: "string \<Rightarrow> string" where
  "skip_spaces s = skip_codes space_codes s"

definition trim :: "string \<Rightarrow> string" where
  "trim s = rev (skip_codes (map rev space_codes) (rev (skip_spaces s)))"

text \<open>The code fence: three backquotes.\<close>

definition fence :: string where
  "fence = [CHR 0x60, CHR 0x60, CHR 0x60]"

text \<open>
  \<open>s.replace(/pat\s*/g, '')\<close> for a literal, non-empty \<open>pat\<close>: every match, found
  from left to right, is removed together with the white space that follows it; the
  search goes on after the match.
\<close>

function remove_with_space :: "string \<Rightarrow> string \<Rightarrow> string" where
  "remove_with_space pat [] = []"
| "remove_with_space pat (c # cs) =
     (if pat \<noteq> [] \<and> take (length pat) (c # cs) = pat
      then remove_with_space pat (skip_spaces (drop (length pat) (c # cs)))
      else c # remove_with_space pat cs)"
  by pat_completeness auto
termination
proof (relation "measure (\<lambda>(pat, s). length s)")
  fix pat :: string and c cs
  assume "pat \<noteq> [] \<and> take (length pat) (c # cs) = pat"
  then have lt: "length (drop (length pat) (c # cs)) < length (c # cs)"
    by (cases pat) auto
  have le: "length (skip_codes codes s) \<le> length s" for codes s
  proof (induction codes s rule: skip_codes.induct)
    case (1 codes s)
    show ?case
    proof (cases "find (\<lambda>p. p \<noteq> [] \<and> take (length p) s = p) codes")
      case None
      then show ?thesis by (simp add: skip_codes.simps [of codes s])
    next
      case (Some p)
      with "1.IH" [OF Some] show ?thesis by (simp add: skip_codes.simps [of codes s])
    qed
  qed
  have "length (skip_spaces (drop (length pat) (c # cs))) < length (c # cs)"
    unfolding skip_spaces_def by (rule le_less_trans [OF le lt])
  then show "((pat, skip_spaces (drop (length pat) (c # cs))), (pat, c # cs))
      \<in> measure (\<lambda>(pat, s). length s)"
    by simp
qed simp_all

text \<open>
  \<open>s.replace(/```[\s\S]*?```/g, '')\<close>: a fence, the shortest text up to the next
  fence, and that fence are removed; a fence with no closing fence stays.
\<close>

function remove_blocks :: "string \<Rightarrow> string" where
  "remove_blocks [] = []"
| "remove_blocks (c # cs) =
     (if take 3 (c # cs) = fence
      then (case indexOf fence (drop 3 (c # cs)) of
              Some j \<Rightarrow> remove_blocks (drop (3 + j + 3) (c # cs))
            | None \<Rightarrow> c # remove_blocks cs)
      else c # remove_blocks cs)"
  by pat_completeness auto
termination
  by (relation "measure length") auto

text \<open>
  \<open>s.match(/\[[\s\S]*\]/)\<close>: the text from the first opening bracket to the last
  closing bracket, when the last closing bracket comes after the first opening one.
\<close>

definition match_array :: "string \<Rightarrow> string option" where
  "match_array s =
     (case (indexOf ''['' s, lastIndexOf '']'' s) of
        (Some i, Some j) \<Rightarrow> if i < j then Some (substring s i (j + 1)) else None
      | _ \<Rightarrow> None)"

section \<open>JavaScript values\<close>

text \<open>
  The values that \<open>JSON.parse\<close> builds, and \<open>undefined\<close>, which reading a missing
  property gives. A number is a finite one, given as a rational; an object is the list
  of its own properties, each key once.
\<close>

datatype jsval =
  JUndefined
| JNull
| JBool bool
| JNum rat
| JStr string
| JArr "jsval list"
| JObj "(string \<times> jsval) list"

datatype js_exn = SyntaxError | TypeError

text \<open>
  \<open>v.key\<close> for one of the keys the parser reads (\<open>file\<close>, \<open>line\<close>, \<open>severity\<close>,
  \<open>category\<close>, \<open>comment\<close>, \<open>suggestion\<close>; no prototype defines them): reading a
  property of \<open>null\<close> or \<open>undefined\<close> throws a TypeError, an object gives its own
  property, every other value gives \<open>undefined\<close>.
\<close>

fun get_prop :: "jsval \<Rightarrow> string \<Rightarrow> js_exn + jsval" where
  "get_prop JNull k = Inl TypeError"
| "get_prop JUndefined k = Inl TypeError"
| "get_prop (JObj kvs) k = Inr (case map_of kvs k of Some v \<Rightarrow> v | None \<Rightarrow> JUndefined)"
| "get_prop v k = Inr JUndefined"

text \<open>JavaScript's truthiness.\<close>

fun truthy :: "jsval \<Rightarrow> bool" where
  "truthy JUndefined = False"
| "truthy JNull = False"
| "truthy (JBool b) = b"
| "truthy (JNum n) = (n \<noteq> 0)"
| "truthy (JStr s) = (s \<noteq> [])"
| "truthy (JArr xs) = True"
| "truthy (JObj kvs) = True"

text \<open>\<open>a || b\<close>.\<close>

definition js_or :: "jsval \<Rightarrow> jsval \<Rightarrow> jsval" where
  "js_or a b = (if truthy a then a else b)"

text \<open>Sequencing: the second step runs when the first did not throw.\<close>

definition bind_exn :: "'e + 'a \<Rightarrow> ('a \<Rightarrow> 'e + 'b) \<Rightarrow> 'e + 'b" where
  "bind_exn r f = (case r of Inl x \<Rightarrow> Inl x | Inr v \<Rightarrow> f v)"

text \<open>
  \<open>xs.filter(f)\<close> and \<open>xs.map(f)\<close> for a callback that may throw: the elements are
  visited in order and the first exception ends the call.
\<close>

fun filter_exn :: "('a \<Rightarrow> 'e + bool) \<Rightarrow> 'a list \<Rightarrow> 'e + 'a list" where
  "filter_exn f [] = Inr []"
| "filter_exn f (x # xs) =
     (case f x of
        Inl e \<Rightarrow> Inl e
      | Inr keep \<Rightarrow>
          (case filter_exn f xs of
             Inl e \<Rightarrow> Inl e
           | Inr ys \<Rightarrow> Inr (if keep then x # ys else ys)))"

fun map_exn :: "('a \<Rightarrow> 'e + 'b) \<Rightarrow> 'a list \<Rightarrow> 'e + 'b list" where
  "map_exn f [] = Inr []"
| "map_exn f (x # xs) =
     (case f x of
        Inl e \<Rightarrow> Inl e
      | Inr y \<Rightarrow> (case map_exn f xs of Inl e \<Rightarrow> Inl e | Inr ys \<Rightarrow> Inr (y # ys)))"

section \<open>JavaScript numbers\<close>

text \<open>
  A JavaScript number is an IEEE 754 double, and the result of \<open>*\<close> and \<open>+\<close> is the
  double nearest to the exact result, the one with the even significand when two are
  equally near. A finite double is modelled as the rational number it stands for. The
  functions below cover magnitudes below \<open>2 ^ 1024\<close>, where no operation overflows;
  the numbers of the retry loop are below \<open>2 ^ 16\<close>.
\<close>

text \<open>The integer nearest to \<open>y\<close>; of two equally near, the even one.\<close>

definition round_half_even :: "rat \<Rightarrow> int" where
  "round_half_even y =
     (let n = \<lfloor>y\<rfloor>; d = y - of_int n
      in if d < 1 / 2 then n else if 1 / 2 < d then n + 1 else if even n then n else n + 1)"

text \<open>The binary exponent of \<open>x > 0\<close>: the \<open>e\<close> with \<open>2 ^ e \<le> x < 2 ^ (e + 1)\<close>.\<close>

definition exponent :: "rat \<Rightarrow> int" where
  "exponent x = (if 1 \<le> x then bitlen \<lfloor>x\<rfloor> - 1 else - bitlen (\<lceil>1 / x\<rceil> - 1))"

text \<open>
  The distance between the doubles around \<open>x > 0\<close>: a significand has 53 bits, and
  the exponent of a double is at least \<open>- 1022\<close>.
\<close>

definition ulp :: "rat \<Rightarrow> rat" where
  "ulp x = 2 powi (max (exponent x) (- 1022) - 52)"

text \<open>The double nearest to \<open>x\<close>.\<close>

definition round_double :: "rat \<Rightarrow> rat" where
  "round_double x =
     (if x = 0 then 0
      else sgn x * (of_int (round_half_even (\<bar>x\<bar> / ulp \<bar>x\<bar>)) * ulp \<bar>x\<bar>))"

definition is_double :: "rat \<Rightarrow> bool" where
  "is_double x = (round_double x = x \<and> \<bar>x\<bar> < 2 ^ 1024)"

section \<open>Data exchanged between the services\<close>

text \<open>
  One review comment, as \<open>parseReviewResponse\<close> builds it (\<open>c_file\<close> is the
  source's \<open>file\<close>).
\<close>

record review_comment =
  c_file :: jsval
  line :: int
  severity :: string
  category :: jsval
  comment :: jsval
  suggestion :: jsval

text \<open>One reviewable file and the pull-request data of \<open>getPullRequestData\<close>.\<close>

record diff_file =
  file_path :: string
  df_status :: string
  df_additions :: nat
  df_deletions :: nat
  df_changes :: nat
  diff :: string

record prData =
  pull_request_id :: int
  pr_repository :: string
  diff_files :: "diff_file list"

text \<open>
  Calls that leave the process, in the order they are made: the requests to GitHub and
  to the Gemini model, and the timer of the retry loop (its delay in milliseconds).
\<close>

datatype call =
  GenerateContent nat
| Sleep rat
| ListReviews
| GetAuthenticated
| GetPullRequestData
| PostReviewComments
| PostFallbackComment

text \<open>
  What the surroundings answer during one run. A remote call answers with its value
  (\<open>Inr\<close>) or rejects with an error message (\<open>Inl\<close>).
  \<^item> \<open>Date_now k\<close>: the clock at the \<open>k\<close>-th \<open>new Date()\<close>, in milliseconds;
  \<^item> \<open>Math_random attempt\<close>: the double that \<open>Math.random()\<close> gives in that attempt;
  \<^item> \<open>JSON_parse\<close>: \<open>JSON.parse\<close>, \<open>None\<close> when it throws a SyntaxError;
  \<^item> \<open>parseInt\<close>: \<open>parseInt\<close>, \<open>None\<close> when it gives \<open>NaN\<close>;
  \<^item> \<open>categoryLines\<close>: the lines that the loop over \<open>Object.entries(categoryCounts)\<close>
    appends to the summary, which follow JavaScript's property-key order;
  \<^item> \<open>generateContent attempt\<close>: the model's answer in that attempt, the text that
    \<open>response.text()\<close> gives or the message of the error thrown before;
  \<^item> \<open>dbError k\<close>: the error with which the \<open>k\<close>-th operation on the record store
    rejects, \<open>None\<close> when it succeeds;
  \<^item> the last five: the answers of the GitHub client. \<open>listReviews\<close> gives the login
    of each review's user, \<open>None\<close> for a review whose user is \<open>null\<close>;
    \<open>getPullRequestData\<close> and \<open>postReviewComments\<close> are the outcomes of these
    methods of \<open>githubService.js\<close>, which are not modelled further (the second
    gives the id of the posted review); \<open>createComment\<close> is the error of the
    request that posts the fallback comment, \<open>None\<close> when it succeeds.
\<close>

record env =
  Date_now :: "nat \<Rightarrow> nat"
  Math_random :: "nat \<Rightarrow> rat"
  JSON_parse :: "string \<Rightarrow> jsval option"
  parseInt :: "jsval \<Rightarrow> int option"
  categoryLines :: "review_comment list \<Rightarrow> string"
  generateContent :: "nat \<Rightarrow> string + string"
  dbError :: "nat \<Rightarrow> string option"
  listReviews :: "string + string option list"
  getAuthenticated :: "string + string"
  getPullRequestData :: "string + prData"
  postReviewComments :: "string + nat"
  createComment :: "string option"

section \<open>The Gemini service\<close>

subsection \<open>parseReviewResponse\<close>

definition allowedSeverities :: "string list" where
  "allowedSeverities = [''error'', ''warning'', ''suggestion'']"

text \<open>\<open>allowedSeverities.includes(severity) ? severity : 'error'\<close>.\<close>

fun normalizeSeverity :: "jsval \<Rightarrow> string" where
  "normalizeSeverity (JStr s) = (if s \<in> set allowedSeverities then s else ''error'')"
| "normalizeSeverity v = ''error''"

text \<open>\<open>parseInt(v) || 1\<close>: \<open>NaN\<close> and \<open>0\<close> are falsy.\<close>

definition parseInt_or_1 :: "env \<Rightarrow> jsval \<Rightarrow> int" where
  "parseInt_or_1 e v = (case parseInt e v of None \<Rightarrow> 1 | Some n \<Rightarrow> if n = 0 then 1 else n)"

text \<open>The filter of the first parse: \<open>!comment.file || !comment.comment\<close> rejects.\<close>

definition comment_valid :: "jsval \<Rightarrow> js_exn + bool" where
  "comment_valid c =
     (case get_prop c ''file'' of
        Inl x \<Rightarrow> Inl x
      | Inr f \<Rightarrow>
          if truthy f
          then (case get_prop c ''comment'' of Inl x \<Rightarrow> Inl x | Inr m \<Rightarrow> Inr (truthy m))
          else Inr False)"

text \<open>The callback of \<open>map\<close>, the same in both parses.\<close>

definition to_comment :: "env \<Rightarrow> jsval \<Rightarrow> js_exn + review_comment" where
  "to_comment e c =
     bind_exn (get_prop c ''file'') (\<lambda>f.
     bind_exn (get_prop c ''line'') (\<lambda>l.
     bind_exn (get_prop c ''severity'') (\<lambda>s.
     bind_exn (get_prop c ''category'') (\<lambda>g.
     bind_exn (get_prop c ''comment'') (\<lambda>m.
     bind_exn (get_prop c ''suggestion'') (\<lambda>u.
       Inr \<lparr>c_file = f, line = parseInt_or_1 e l, severity = normalizeSeverity s,
            category = js_or g (JStr ''general''), comment = m,
            suggestion = js_or u JNull\<rparr>))))))"

text \<open>\<open>parsed.filter(...).map(...)\<close>.\<close>

definition clean_comments :: "env \<Rightarrow> jsval list \<Rightarrow> js_exn + review_comment list" where
  "clean_comments e parsed =
     (case filter_exn comment_valid parsed of
        Inl x \<Rightarrow> Inl x
      | Inr cs \<Rightarrow> map_exn (to_comment e) cs)"

text \<open>The three \<open>replace\<close> calls and \<open>trim()\<close>.\<close>

definition strip_markdown :: "string \<Rightarrow> string" where
  "strip_markdown responseText =
     trim (remove_blocks (remove_with_space fence
       (remove_with_space (fence @ ''json'') responseText)))"

text \<open>
  The \<open>try\<close> block of \<open>parseReviewResponse\<close>: \<open>Inl\<close> is the exception that sends
  control to the \<open>catch\<close> block.
\<close>

definition primary_parse :: "env \<Rightarrow> string \<Rightarrow> js_exn + review_comment list" where
  "primary_parse e responseText =
     (let cleaned = strip_markdown responseText;
          cleaned = (case match_array cleaned of Some m \<Rightarrow> m | None \<Rightarrow> cleaned);
          cleaned = (case lastIndexOf '']'' cleaned of
                       Some jsonEndIndex \<Rightarrow> substring cleaned 0 (jsonEndIndex + 1)
                     | None \<Rightarrow> cleaned)
      in case JSON_parse e cleaned of
           None \<Rightarrow> Inl SyntaxError
         | Some (JArr parsed) \<Rightarrow> clean_comments e parsed
         | Some _ \<Rightarrow> Inr [])"

text \<open>
  The text between the first opening and the last closing bracket of the raw response,
  which the \<open>catch\<close> block hands to \<open>JSON.parse\<close>; \<open>None\<close> when the brackets are
  missing or in the wrong order.
\<close>

definition jsonPart :: "string \<Rightarrow> string option" where
  "jsonPart responseText =
     (case (indexOf ''['' responseText, lastIndexOf '']'' responseText) of
        (Some arrayStart, Some arrayEnd) \<Rightarrow>
          if arrayEnd > arrayStart then Some (substring responseText arrayStart (arrayEnd + 1))
          else None
      | _ \<Rightarrow> None)"

text \<open>
  The inner \<open>try\<close> block of the \<open>catch\<close> block: \<open>Inr (Some cs)\<close> when it returns
  \<open>cs\<close>, \<open>Inr None\<close> when it falls through, \<open>Inl\<close> when it throws.
\<close>

definition fallback_parse :: "env \<Rightarrow> string \<Rightarrow> js_exn + review_comment list option" where
  "fallback_parse e responseText =
     (case jsonPart responseText of
        None \<Rightarrow> Inr None
      | Some part \<Rightarrow>
          (case JSON_parse e part of
             None \<Rightarrow> Inl SyntaxError
           | Some (JArr parsed) \<Rightarrow>
               (case clean_comments e parsed of Inl x \<Rightarrow> Inl x | Inr cs \<Rightarrow> Inr (Some cs))
           | Some _ \<Rightarrow> Inr None))"

definition parseReviewResponse :: "env \<Rightarrow> string \<Rightarrow> review_comment list" where
  "parseReviewResponse e responseText =
     (case primary_parse e responseText of
        Inr cs \<Rightarrow> cs
      | Inl error \<Rightarrow>
          (case fallback_parse e responseText of
             Inr (Some cs) \<Rightarrow> cs
           | Inr None \<Rightarrow> []
           | Inl fallbackError \<Rightarrow> []))"

subsection \<open>generateReview\<close>

text \<open>A number in a template literal: its decimal digits.\<close>

fun show_nat :: "nat \<Rightarrow> string" where
  "show_nat n =
     (if n < 10 then [char_of (48 + n)]
      else show_nat (n div 10) @ [char_of (48 + n mod 10)])"

declare show_nat.simps [simp del]

definition maxRetries :: nat where
  "maxRetries = 5"

text \<open>
  The test \<open>error.message.includes('503') || error.message.includes('overloaded')\<close>,
  which the retry loop and the controller both make.
\<close>

definition is_overloaded :: "string \<Rightarrow> bool" where
  "is_overloaded message = (str_includes message ''503'' \<or> str_includes message ''overloaded'')"

text \<open>
  The three constants of the \<open>catch\<close> block, in milliseconds, each the double that
  the operation gives. \<open>Math.pow(2, attempt)\<close> is the power of two itself, which is a
  double.
\<close>

definition baseWaitTime :: "nat \<Rightarrow> rat" where
  "baseWaitTime attempt = round_double (2 ^ attempt * 1000)"

definition jitter :: "env \<Rightarrow> nat \<Rightarrow> rat" where
  "jitter e attempt = round_double (Math_random e attempt * 1000)"

definition waitTime :: "env \<Rightarrow> nat \<Rightarrow> rat" where
  "waitTime e attempt = round_double (baseWaitTime attempt + jitter e attempt)"

text \<open>
  The \<open>throw\<close> after the loop. \<open>lastError\<close> is \<open>None\<close> while no attempt has failed;
  reading its message would then throw a TypeError.
\<close>

definition throw_failed :: "string option \<Rightarrow> string" where
  "throw_failed lastError =
     (case lastError of
        Some message \<Rightarrow>
          ''Failed to generate code review after '' @ show_nat maxRetries @ '' attempts: ''
            @ message
      | None \<Rightarrow> ''Cannot read properties of undefined'')"

text \<open>
  The \<open>for\<close> loop from \<open>attempt\<close> on. It returns the comments or the message of the
  error it throws, and the calls made, appended to \<open>cs\<close>.
\<close>

function generateReview_from ::
  "env \<Rightarrow> nat \<Rightarrow> string option \<Rightarrow> call list \<Rightarrow> (string + review_comment list) \<times> call list"
where
  "generateReview_from e attempt lastError cs =
     (if attempt \<le> maxRetries
      then (case generateContent e attempt of
              Inr reviewText \<Rightarrow>
                (Inr (parseReviewResponse e reviewText), cs @ [GenerateContent attempt])
            | Inl message \<Rightarrow>
                if is_overloaded message \<and> attempt < maxRetries
                then generateReview_from e (attempt + 1) (Some message)
                       (cs @ [GenerateContent attempt, Sleep (waitTime e attempt)])
                else (Inl (throw_failed (Some message)), cs @ [GenerateContent attempt]))
      else (Inl (throw_failed lastError), cs))"
  by pat_completeness auto
termination
  by (relation "measure (\<lambda>(e, attempt, lastError, cs). maxRetries + 1 - attempt)") auto

declare generateReview_from.simps [simp del]

definition generateReview ::
  "env \<Rightarrow> prData \<Rightarrow> call list \<Rightarrow> (string + review_comment list) \<times> call list" where
  "generateReview e prData cs = generateReview_from e 1 None cs"

subsection \<open>generateSummaryComment\<close>

definition no_issues_summary :: string where
  "no_issues_summary =
     [CHR 0xF0, CHR 0x9F, CHR 0x8E, CHR 0x89] @ '' **Code Review Complete**\<newline>\<newline>''
     @ ''This pull request looks good! No issues found during the automated review.''"

definition summary_header :: string where
  "summary_header =
     [CHR 0xF0, CHR 0x9F, CHR 0xA4, CHR 0x96] @ '' **Automated Code Review Summary**\<newline>\<newline>''"

text \<open>\<open>severityCounts[s]\<close>: the number of comments of severity \<open>s\<close>.\<close>

definition severityCount :: "review_comment list \<Rightarrow> string \<Rightarrow> nat" where
  "severityCount comments s = length (filter (\<lambda>c. severity c = s) comments)"

text \<open>One line of the severity breakdown, absent when the count is zero.\<close>

definition severity_line :: "string \<Rightarrow> nat \<Rightarrow> string \<Rightarrow> string" where
  "severity_line emoji n label =
     (if n \<noteq> 0 then emoji @ '' **'' @ show_nat n @ '' '' @ label @ ''**\<newline>'' else [])"

text \<open>
  Nothing in the \<open>try\<close> block throws on a list of comments, so its \<open>catch\<close> block is
  not a branch of the model.
\<close>

definition generateSummaryComment :: "env \<Rightarrow> review_comment list \<Rightarrow> prData \<Rightarrow> string" where
  "generateSummaryComment e comments prData =
     (if length comments = 0 then no_issues_summary
      else summary_header
        @ ''Found '' @ show_nat (length comments) @ '' item(s) to review:\<newline>\<newline>''
        @ severity_line [CHR 0xF0, CHR 0x9F, CHR 0x94, CHR 0xB4]
            (severityCount comments ''error'') ''Error(s)''
        @ severity_line [CHR 0xF0, CHR 0x9F, CHR 0x9F, CHR 0xA1]
            (severityCount comments ''warning'') ''Warning(s)''
        @ severity_line [CHR 0xF0, CHR 0x9F, CHR 0x92, CHR 0xA1]
            (severityCount comments ''suggestion'') ''Suggestion(s)''
        @ ''\<newline>**Categories:**\<newline>''
        @ categoryLines e comments
        @ ''\<newline>Please review the inline comments for detailed feedback.'')"

section \<open>The Review model\<close>

datatype status = Pending | InProgress | Completed | Failed | Skipped

record pr_snapshot =
  title :: string
  description :: "string option"
  author :: string
  baseBranch :: string
  headBranch :: string
  commitSha :: string

record reviewed_file =
  filePath :: string
  rf_status :: string
  additions :: nat
  deletions :: nat
  changes :: nat

text \<open>
  A document of the \<open>Review\<close> collection. \<open>rid\<close> is its \<open>_id\<close>; an absent value is
  \<open>None\<close>. The fields that mongoose keeps by itself (\<open>createdAt\<close>, \<open>updatedAt\<close>) and
  \<open>reviewCriteria\<close>, which no function reads or writes, are left out.
\<close>

record review =
  rid :: nat
  pullRequestId :: int
  repository :: string
  owner :: string
  repo :: string
  prInfo :: pr_snapshot
  comments :: "review_comment list"
  summaryComment :: "string option"
  status :: status
  githubReviewId :: "nat option"
  reviewStartedAt :: "nat option"
  reviewCompletedAt :: "nat option"
  errorMessage :: "string option"
  retryCount :: nat
  filesReviewed :: "reviewed_file list"

text \<open>
  The state of the process and of the record store:
  \<^item> \<open>store\<close>: the documents of the collection;
  \<^item> \<open>dbOps\<close>: how many operations on the store were made;
  \<^item> \<open>saved\<close>: the documents handed to \<open>save()\<close>, in order, each with whether the
    store accepted it;
  \<^item> \<open>dates\<close>: how many times the clock was read;
  \<^item> \<open>botUser\<close>: the login that \<open>getBotUser\<close> caches;
  \<^item> \<open>calls\<close>: the calls that left the process.
\<close>

record world =
  store :: "review list"
  dbOps :: nat
  saved :: "(review \<times> bool) list"
  dates :: nat
  botUser :: "string option"
  calls :: "call list"

text \<open>\<open>new Date()\<close>.\<close>

definition new_Date :: "env \<Rightarrow> world \<Rightarrow> nat \<times> world" where
  "new_Date e w = (Date_now e (dates w), w\<lparr>dates := Suc (dates w)\<rparr>)"

text \<open>The store after it accepted \<open>doc\<close>: the document of that id is replaced or added.\<close>

definition put :: "review \<Rightarrow> review list \<Rightarrow> review list" where
  "put doc rs =
     (if rid doc \<in> set (map rid rs)
      then map (\<lambda>r. if rid r = rid doc then doc else r) rs
      else rs @ [doc])"

text \<open>\<open>doc.save()\<close>: \<open>Inl\<close> is the error it rejects with.\<close>

definition save :: "env \<Rightarrow> review \<Rightarrow> world \<Rightarrow> (string + unit) \<times> world" where
  "save e doc w =
     (case dbError e (dbOps w) of
        Some message \<Rightarrow>
          (Inl message, w\<lparr>dbOps := Suc (dbOps w), saved := saved w @ [(doc, False)]\<rparr>)
      | None \<Rightarrow>
          (Inr (), w\<lparr>store := put doc (store w), dbOps := Suc (dbOps w),
                     saved := saved w @ [(doc, True)]\<rparr>))"

text \<open>
  The four methods. Each changes the document in memory and then saves it; it returns
  the outcome of \<open>save()\<close>, the document as changed, and the new state.
\<close>

definition markInProgress :: "env \<Rightarrow> review \<Rightarrow> world \<Rightarrow> (string + unit) \<times> review \<times> world" where
  "markInProgress e this w =
     (let (now, w1) = new_Date e w;
          this = this\<lparr>status := InProgress, reviewStartedAt := Some now\<rparr>;
          (r, w2) = save e this w1
      in (r, this, w2))"

text \<open>\<open>if (githubReviewId)\<close>: an absent id and the id \<open>0\<close> are falsy.\<close>

definition markCompleted ::
  "env \<Rightarrow> nat option \<Rightarrow> review \<Rightarrow> world \<Rightarrow> (string + unit) \<times> review \<times> world" where
  "markCompleted e gid this w =
     (let (now, w1) = new_Date e w;
          this = this\<lparr>status := Completed, reviewCompletedAt := Some now\<rparr>;
          this = (case gid of
                    Some i \<Rightarrow> if i \<noteq> 0 then this\<lparr>githubReviewId := Some i\<rparr> else this
                  | None \<Rightarrow> this);
          (r, w2) = save e this w1
      in (r, this, w2))"

definition markFailed ::
  "env \<Rightarrow> string \<Rightarrow> review \<Rightarrow> world \<Rightarrow> (string + unit) \<times> review \<times> world" where
  "markFailed e message this w =
     (let this = this\<lparr>status := Failed, errorMessage := Some message\<rparr>;
          (now, w1) = new_Date e w;
          this = this\<lparr>reviewCompletedAt := Some now\<rparr>;
          (r, w2) = save e this w1
      in (r, this, w2))"

definition incrementRetry :: "env \<Rightarrow> review \<Rightarrow> world \<Rightarrow> (string + unit) \<times> review \<times> world" where
  "incrementRetry e this w =
     (let this = this\<lparr>retryCount := retryCount this + 1, status := Pending,
                       errorMessage := None\<rparr>;
          (r, w1) = save e this w
      in (r, this, w1))"

text \<open>The query \<open>{owner, repo, pullRequestId}\<close> of \<open>findByPR\<close>.\<close>

definition is_pr :: "string \<Rightarrow> string \<Rightarrow> int \<Rightarrow> review \<Rightarrow> bool" where
  "is_pr ownr rpo n r = (owner r = ownr \<and> repo r = rpo \<and> pullRequestId r = n)"

text \<open>
  The two queries. \<open>Inl\<close> is the error the store rejects with, \<open>Inr None\<close> is
  \<open>null\<close>: no document matches.
\<close>

definition findByPR ::
  "env \<Rightarrow> string \<Rightarrow> string \<Rightarrow> int \<Rightarrow> world \<Rightarrow> (string + review option) \<times> world" where
  "findByPR e ownr rpo n w =
     (case dbError e (dbOps w) of
        Some message \<Rightarrow> (Inl message, w\<lparr>dbOps := Suc (dbOps w)\<rparr>)
      | None \<Rightarrow>
          (Inr (find (is_pr ownr rpo n) (store w)), w\<lparr>dbOps := Suc (dbOps w)\<rparr>))"

definition findById :: "env \<Rightarrow> nat \<Rightarrow> world \<Rightarrow> (string + review option) \<times> world" where
  "findById e i w =
     (case dbError e (dbOps w) of
        Some message \<Rightarrow> (Inl message, w\<lparr>dbOps := Suc (dbOps w)\<rparr>)
      | None \<Rightarrow> (Inr (find (\<lambda>r. rid r = i) (store w)), w\<lparr>dbOps := Suc (dbOps w)\<rparr>))"

section \<open>The GitHub service\<close>

text \<open>\<open>getBotUser\<close>: the authenticated user is asked for once and then cached.\<close>

definition getBotUser :: "env \<Rightarrow> world \<Rightarrow> (string + string) \<times> world" where
  "getBotUser e w =
     (case botUser w of
        Some user \<Rightarrow> (Inr user, w)
      | None \<Rightarrow>
          (case getAuthenticated e of
             Inl message \<Rightarrow> (Inl message, w\<lparr>calls := calls w @ [GetAuthenticated]\<rparr>)
           | Inr user \<Rightarrow>
               (Inr user, w\<lparr>botUser := Some user, calls := calls w @ [GetAuthenticated]\<rparr>)))"

text \<open>
  The callback \<open>review.user.login === botUser.login\<close>: reading \<open>login\<close> of a \<open>null\<close>
  user throws a TypeError.
\<close>

definition by_bot :: "string \<Rightarrow> string option \<Rightarrow> string + bool" where
  "by_bot botLogin user =
     (case user of
        None \<Rightarrow> Inl ''Cannot read properties of null''
      | Some login \<Rightarrow> Inr (login = botLogin))"

text \<open>The \<open>try\<close> block of \<open>hasAlreadyReviewed\<close>.\<close>

definition hasAlreadyReviewed_try ::
  "env \<Rightarrow> string \<Rightarrow> string \<Rightarrow> int \<Rightarrow> world \<Rightarrow> (string + bool) \<times> world" where
  "hasAlreadyReviewed_try e ownr rpo pullNumber w =
     (let w1 = w\<lparr>calls := calls w @ [ListReviews]\<rparr> in
      case listReviews e of
        Inl message \<Rightarrow> (Inl message, w1)
      | Inr reviews \<Rightarrow>
          (case getBotUser e w1 of
             (Inl message, w2) \<Rightarrow> (Inl message, w2)
           | (Inr botLogin, w2) \<Rightarrow>
               (case filter_exn (by_bot botLogin) reviews of
                  Inl message \<Rightarrow> (Inl message, w2)
                | Inr botReviews \<Rightarrow> (Inr (length botReviews > 0), w2))))"

text \<open>\<open>hasAlreadyReviewed\<close>: the \<open>catch\<close> block logs the error and returns \<open>false\<close>.\<close>

definition hasAlreadyReviewed ::
  "env \<Rightarrow> string \<Rightarrow> string \<Rightarrow> int \<Rightarrow> world \<Rightarrow> (string + bool) \<times> world" where
  "hasAlreadyReviewed e ownr rpo pullNumber w =
     (case hasAlreadyReviewed_try e ownr rpo pullNumber w of
        (Inr answer, w1) \<Rightarrow> (Inr answer, w1)
      | (Inl error, w1) \<Rightarrow> (Inr False, w1))"

text \<open>\<open>postFallbackComment\<close>: the \<open>catch\<close> block logs the error and throws it again.\<close>

definition postFallbackComment ::
  "env \<Rightarrow> string \<Rightarrow> string \<Rightarrow> int \<Rightarrow> world \<Rightarrow> (string + unit) \<times> world" where
  "postFallbackComment e ownr rpo pullNumber w =
     (case createComment e of
        Some message \<Rightarrow> (Inl message, w\<lparr>calls := calls w @ [PostFallbackComment]\<rparr>)
      | None \<Rightarrow> (Inr (), w\<lparr>calls := calls w @ [PostFallbackComment]\<rparr>))"

section \<open>The webhook controller\<close>

text \<open>
  An error thrown by a handler: a plain \<open>Error\<close> with its message, or an \<open>AppError\<close>
  with its message and HTTP status.
\<close>

datatype error = Error string | AppError string nat

text \<open>The fields of a \<open>pull_request\<close> payload that the controller reads.\<close>

record pr_event =
  action :: string
  number :: int
  pr_title :: string
  pr_body :: "string option"
  user_login :: string
  base_ref :: string
  head_ref :: string
  head_sha :: string
  draft :: bool
  owner_login :: string
  repo_name :: string
  full_name :: string

text \<open>The JSON body of a response, sent with status 200.\<close>

record response =
  res_message :: string
  res_reviewId :: "nat option"
  res_retryCount :: "nat option"

text \<open>
  A call \<open>processReviewAsync(owner, repo, pullNumber, reviewId)\<close> that a handler
  starts and does not wait for.
\<close>

type_synonym run = "string \<times> string \<times> int \<times> nat"

definition relevantActions :: "string list" where
  "relevantActions = [''opened'', ''synchronize'', ''reopened'']"

text \<open>An \<open>_id\<close> that no document of the store has.\<close>

definition fresh_id :: "review list \<Rightarrow> nat" where
  "fresh_id rs = Suc (fold max (map rid rs) 0)"

text \<open>
  \<open>new Review({...})\<close> with the defaults of the schema; \<open>reviewStartedAt\<close> defaults to
  the time of construction.
\<close>

definition new_Review :: "nat \<Rightarrow> nat \<Rightarrow> pr_event \<Rightarrow> review" where
  "new_Review i now ev =
     \<lparr>rid = i, pullRequestId = number ev, repository = full_name ev,
      owner = owner_login ev, repo = repo_name ev,
      prInfo = \<lparr>title = pr_title ev, description = pr_body ev, author = user_login ev,
                 baseBranch = base_ref ev, headBranch = head_ref ev,
                 commitSha = head_sha ev\<rparr>,
      comments = [], summaryComment = None, status = Pending, githubReviewId = None,
      reviewStartedAt = Some now, reviewCompletedAt = None, errorMessage = None,
      retryCount = 0, filesReviewed = []\<rparr>"

definition reply :: "string \<Rightarrow> nat option \<Rightarrow> response" where
  "reply m i = \<lparr>res_message = m, res_reviewId = i, res_retryCount = None\<rparr>"

text \<open>
  \<open>handlePullRequest\<close>. It returns the response or the error thrown, the new state,
  and the run it started, if any.
\<close>

definition handlePullRequest ::
  "env \<Rightarrow> pr_event \<Rightarrow> world \<Rightarrow> (error + response) \<times> world \<times> run option" where
  "handlePullRequest e ev w =
     (if action ev \<notin> set relevantActions
      then (Inr (reply ''Action not processed'' None), w, None)
      else
        (case findByPR e (owner_login ev) (repo_name ev) (number ev) w of
           (Inl m, w1) \<Rightarrow>
             (Inl (AppError (''Failed to process PR webhook: '' @ m) 500), w1, None)
         | (Inr existingReview, w1) \<Rightarrow>
             (if (case existingReview of
                    Some r \<Rightarrow> status r = Completed \<and> action ev \<noteq> ''synchronize''
                  | None \<Rightarrow> False)
              then (Inr (reply ''PR already reviewed'' (map_option rid existingReview)), w1, None)
              else if draft ev
              then (Inr (reply ''Draft PR skipped'' None), w1, None)
              else
                (let (review, w2) =
                       (case existingReview of
                          None \<Rightarrow>
                            (let (now, w') = new_Date e w1
                             in (new_Review (fresh_id (store w1)) now ev, w'))
                        | Some r \<Rightarrow>
                            (r\<lparr>prInfo := (prInfo r)\<lparr>commitSha := head_sha ev\<rparr>,
                               status := Pending, errorMessage := None\<rparr>, w1))
                 in case save e review w2 of
                      (Inl m, w3) \<Rightarrow>
                        (Inl (AppError (''Failed to process PR webhook: '' @ m) 500), w3, None)
                    | (Inr u, w3) \<Rightarrow>
                        (Inr (reply ''PR review started'' (Some (rid review))), w3,
                         Some (owner_login ev, repo_name ev, number ev, rid review))))))"

text \<open>
  \<open>processReviewAsync\<close>, from the end of its \<open>try\<close> block backwards. Each part returns
  \<open>Inl\<close> with the message of the error that leaves the \<open>try\<close> block, or \<open>Inr\<close>, together
  with the document in memory and the new state.
\<close>

definition files_of :: "prData \<Rightarrow> reviewed_file list" where
  "files_of prData =
     map (\<lambda>f. \<lparr>filePath = file_path f, rf_status = df_status f, additions = df_additions f,
                deletions = df_deletions f, changes = df_changes f\<rparr>) (diff_files prData)"

text \<open>From \<open>generateReview\<close> to \<open>markCompleted(githubReview.id)\<close>.\<close>

definition review_and_post ::
  "env \<Rightarrow> string \<Rightarrow> string \<Rightarrow> int \<Rightarrow> prData \<Rightarrow> review \<Rightarrow> world
    \<Rightarrow> (string + unit) \<times> review \<times> world" where
  "review_and_post e ownr rpo pullNumber prData review w =
     (case generateReview e prData (calls w) of
        (Inl m, cs) \<Rightarrow> (Inl m, review, w\<lparr>calls := cs\<rparr>)
      | (Inr cmts, cs) \<Rightarrow>
          (let w1 = w\<lparr>calls := cs\<rparr>;
               summary = generateSummaryComment e cmts prData;
               review = review\<lparr>comments := cmts, summaryComment := Some summary\<rparr>
           in case save e review w1 of
                (Inl m, w2) \<Rightarrow> (Inl m, review, w2)
              | (Inr u, w2) \<Rightarrow>
                  (let w3 = w2\<lparr>calls := calls w2 @ [PostReviewComments]\<rparr>
                   in case postReviewComments e of
                        Inl m \<Rightarrow> (Inl m, review, w3)
                      | Inr githubReview_id \<Rightarrow>
                          markCompleted e (Some githubReview_id) review w3)))"

text \<open>From \<open>getPullRequestData\<close> on.\<close>

definition fetch_and_review ::
  "env \<Rightarrow> string \<Rightarrow> string \<Rightarrow> int \<Rightarrow> review \<Rightarrow> world \<Rightarrow> (string + unit) \<times> review \<times> world" where
  "fetch_and_review e ownr rpo pullNumber review w =
     (let w1 = w\<lparr>calls := calls w @ [GetPullRequestData]\<rparr>
      in case getPullRequestData e of
           Inl m \<Rightarrow> (Inl m, review, w1)
         | Inr prData \<Rightarrow>
             (let review = review\<lparr>filesReviewed := files_of prData\<rparr>
              in case save e review w1 of
                   (Inl m, w2) \<Rightarrow> (Inl m, review, w2)
                 | (Inr u, w2) \<Rightarrow>
                     if length (diff_files prData) = 0
                     then markCompleted e None review w2
                     else review_and_post e ownr rpo pullNumber prData review w2))"

text \<open>
  The whole \<open>try\<close> block. The document is \<open>None\<close> while the variable \<open>review\<close> holds no
  document.
\<close>

definition processReviewAsync_try ::
  "env \<Rightarrow> string \<Rightarrow> string \<Rightarrow> int \<Rightarrow> nat \<Rightarrow> world
    \<Rightarrow> (string + unit) \<times> review option \<times> world" where
  "processReviewAsync_try e ownr rpo pullNumber reviewId w =
     (case findById e reviewId w of
        (Inl m, w1) \<Rightarrow> (Inl m, None, w1)
      | (Inr None, w1) \<Rightarrow> (Inl ''Review record not found'', None, w1)
      | (Inr (Some review), w1) \<Rightarrow>
          (case markInProgress e review w1 of
             (Inl m, review, w2) \<Rightarrow> (Inl m, Some review, w2)
           | (Inr u, review, w2) \<Rightarrow>
               (case hasAlreadyReviewed e ownr rpo pullNumber w2 of
                  (Inl m, w3) \<Rightarrow> (Inl m, Some review, w3)
                | (Inr alreadyReviewed, w3) \<Rightarrow>
                    (case (if alreadyReviewed then markCompleted e None review w3
                           else fetch_and_review e ownr rpo pullNumber review w3) of
                       (r, review, w4) \<Rightarrow> (r, Some review, w4)))))"

text \<open>
  The \<open>catch\<close> block, entered with the message \<open>m\<close> of the error: it posts the
  fallback comment for an overload error (a failure to post it is logged), marks the
  document failed if there is one, and throws the error again. An error of
  \<open>markFailed\<close> itself leaves the function in its place.
\<close>

definition processReviewAsync_catch ::
  "env \<Rightarrow> string \<Rightarrow> string \<Rightarrow> int \<Rightarrow> string \<Rightarrow> review option \<Rightarrow> world
    \<Rightarrow> (string + unit) \<times> review option \<times> world" where
  "processReviewAsync_catch e ownr rpo pullNumber m review w =
     (let w1 = (if is_overloaded m then snd (postFallbackComment e ownr rpo pullNumber w)
                else w)
      in case review of
           None \<Rightarrow> (Inl m, None, w1)
         | Some review \<Rightarrow>
             (case markFailed e m review w1 of
                (Inl m', review, w2) \<Rightarrow> (Inl m', Some review, w2)
              | (Inr u, review, w2) \<Rightarrow> (Inl m, Some review, w2)))"

definition processReviewAsync ::
  "env \<Rightarrow> string \<Rightarrow> string \<Rightarrow> int \<Rightarrow> nat \<Rightarrow> world
    \<Rightarrow> (string + unit) \<times> review option \<times> world" where
  "processReviewAsync e ownr rpo pullNumber reviewId w =
     (case processReviewAsync_try e ownr rpo pullNumber reviewId w of
        (Inr u, review, w1) \<Rightarrow> (Inr u, review, w1)
      | (Inl m, review, w1) \<Rightarrow> processReviewAsync_catch e ownr rpo pullNumber m review w1)"

text \<open>
  \<open>retryReview\<close>, for the query parameters \<open>owner\<close> and \<open>repo\<close> (\<open>None\<close> when absent)
  and the number that \<open>parseInt(prId)\<close> gives.
\<close>

definition retryReview ::
  "env \<Rightarrow> string option \<Rightarrow> string option \<Rightarrow> int \<Rightarrow> world
    \<Rightarrow> (error + response) \<times> world \<times> run option" where
  "retryReview e ownerParam repoParam prId w =
     (case (ownerParam, repoParam) of
        (Some ownr, Some rpo) \<Rightarrow>
          (if ownr = [] \<or> rpo = []
           then (Inl (AppError ''Owner and repo query parameters are required'' 400), w, None)
           else
             (case findByPR e ownr rpo prId w of
                (Inl m, w1) \<Rightarrow> (Inl (Error m), w1, None)
              | (Inr None, w1) \<Rightarrow> (Inl (AppError ''Review not found'' 404), w1, None)
              | (Inr (Some review), w1) \<Rightarrow>
                  (if status review = Completed
                   then (Inl (AppError ''Review already completed'' 400), w1, None)
                   else if status review = InProgress
                   then (Inl (AppError ''Review already in progress'' 400), w1, None)
                   else
                     (case incrementRetry e review w1 of
                        (Inl m, review, w2) \<Rightarrow> (Inl (Error m), w2, None)
                      | (Inr u, review, w2) \<Rightarrow>
                          (Inr \<lparr>res_message = ''Review retry initiated'',
                                res_reviewId = Some (rid review),
                                res_retryCount = Some (retryCount review)\<rparr>,
                           w2, Some (ownr, rpo, prId, rid review))))))
      | _ \<Rightarrow> (Inl (AppError ''Owner and repo query parameters are required'' 400), w, None))"

section \<open>Notions used in the statements\<close>

text \<open>
  The calls of a retry loop that starts at attempt \<open>a\<close> and ends with attempt \<open>n\<close>:
  every attempt before the last is followed by the timer set to \<open>waitTime\<close>.
\<close>

definition attempt_calls :: "env \<Rightarrow> nat \<Rightarrow> nat \<Rightarrow> call list" where
  "attempt_calls e a n =
     concat (map (\<lambda>k. [GenerateContent k, Sleep (waitTime e k)]) [a..<n]) @ [GenerateContent n]"

text \<open>Attempt \<open>k\<close> fails with an overload error.\<close>

definition retryable_failure :: "env \<Rightarrow> nat \<Rightarrow> bool" where
  "retryable_failure e k =
     (case generateContent e k of Inl m \<Rightarrow> is_overloaded m | Inr t \<Rightarrow> False)"

text \<open>
  The status of each document handed to \<open>save()\<close>, in order, and the status of each
  one that the store accepted.
\<close>

definition saved_statuses :: "world \<Rightarrow> status list" where
  "saved_statuses w = map (\<lambda>x. status (fst x)) (saved w)"

definition stored_statuses :: "world \<Rightarrow> status list" where
  "stored_statuses w = map (\<lambda>x. status (fst x)) (filter snd (saved w))"



section \<open>Concrete inputs\<close>

text \<open>
  Surroundings in which every call succeeds: the model answers with an empty array,
  nobody has reviewed the pull request, one file is reviewable.
\<close>

definition prData_one :: prData where
  "prData_one =
     \<lparr>pull_request_id = 7, pr_repository = ''o/r'',
      diff_files = [\<lparr>file_path = ''a.js'', df_status = ''modified'', df_additions = 1,
                      df_deletions = 0, df_changes = 1, diff = ''+x''\<rparr>]\<rparr>"

definition env_ok :: env where
  "env_ok =
     \<lparr>Date_now = (\<lambda>k. 1000 + k),
      Math_random = (\<lambda>k. 1 / 2),
      JSON_parse = (\<lambda>s. if s = ''[]'' then Some (JArr []) else None),
      parseInt = (\<lambda>v. None),
      categoryLines = (\<lambda>cs. []),
      generateContent = (\<lambda>k. Inr ''[]''),
      dbError = (\<lambda>k. None),
      listReviews = Inr [],
      getAuthenticated = Inr ''review-bot'',
      getPullRequestData = Inr prData_one,
      postReviewComments = Inr 1,
      createComment = None\<rparr>"

text \<open>The record of pull request 7 of \<open>o/r\<close>, pending at commit \<open>A\<close>.\<close>

definition review_pending :: review where
  "review_pending =
     \<lparr>rid = 1, pullRequestId = 7, repository = ''o/r'', owner = ''o'', repo = ''r'',
      prInfo = \<lparr>title = ''T'', description = None, author = ''u'', baseBranch = ''main'',
                 headBranch = ''f'', commitSha = ''A''\<rparr>,
      comments = [], summaryComment = None, status = Pending, githubReviewId = None,
      reviewStartedAt = Some 10, reviewCompletedAt = None, errorMessage = None,
      retryCount = 0, filesReviewed = []\<rparr>"

text \<open>A process that has done nothing yet, over a store that holds the records \<open>rs\<close>.\<close>

definition world_of :: "review list \<Rightarrow> world" where
  "world_of rs = \<lparr>store = rs, dbOps = 0, saved = [], dates = 0, botUser = None, calls = []\<rparr>"

text \<open>The same record after a completed and after a failed review.\<close>

definition review_completed :: review where
  "review_completed = review_pending\<lparr>status := Completed, reviewCompletedAt := Some 20\<rparr>"

definition review_failed :: review where
  "review_failed =
     review_pending\<lparr>status := Failed, reviewCompletedAt := Some 20,
                    errorMessage := Some ''Failed to post review: Not Found''\<rparr>"

text \<open>The model is overloaded in the first two attempts and answers in the third.\<close>

definition env_overloaded_twice :: env where
  "env_overloaded_twice =
     env_ok\<lparr>generateContent :=
       (\<lambda>k. if k < 3 then Inl ''503 Service Unavailable'' else Inr ''[]'')\<rparr>"

text \<open>
  The store rejects its second operation, which in a run of the orchestrator is the
  first save, and accepts the others.
\<close>

definition env_save_rejected :: env where
  "env_save_rejected =
     env_ok\<lparr>dbError := (\<lambda>k. if k = 1 then Some ''connection lost'' else None)\<rparr>"

text \<open>The event \<open>opened\<close> for that pull request, now at commit \<open>B\<close>.\<close>

definition ev_opened :: pr_event where
  "ev_opened =
     \<lparr>action = ''opened'', number = 7, pr_title = ''T'', pr_body = None, user_login = ''u'',
      base_ref = ''main'', head_ref = ''f'', head_sha = ''B'', draft = False,
      owner_login = ''o'', repo_name = ''r'', full_name = ''o/r''\<rparr>"

section \<open>Evaluation and frame lemmas\<close>

lemma show_nat_5: "show_nat 5 = ''5''"
  by code_simp

lemma not_found_not_overloaded: "\<not> is_overloaded ''Review record not found''"
  by (simp add: is_overloaded_def str_includes_def)


lemma findByPR_found:
  "findByPR e ownr rpo n w = (Inr (Some r), w1) \<Longrightarrow>
     find (is_pr ownr rpo n) (store w) = Some r \<and> is_pr ownr rpo n r \<and> r \<in> set (store w)
     \<and> w1 = w\<lparr>dbOps := Suc (dbOps w)\<rparr>"
  by (auto simp: findByPR_def find_Some_iff split: option.splits)



text \<open>Saving a changed version of a stored record: both lookups then find the new version.\<close>

lemma find_put_same:
  assumes f: "find P rs = Some r" and p: "P r'" and i: "rid r' = rid r"
  shows "find P (put r' rs) = Some r'"
proof -
  from f have "r \<in> set rs" by (auto simp: find_Some_iff)
  then have mem: "rid r' \<in> set (map rid rs)" using i by force
  have "find P (map (\<lambda>x. if rid x = rid r' then r' else x) rs) = Some r'"
    using f
  proof (induction rs)
    case Nil
    then show ?case by simp
  next
    case (Cons x xs)
    then show ?case using p i by (auto split: if_splits)
  qed
  with mem show ?thesis by (simp add: put_def)
qed

lemma find_put_rid:
  assumes mem: "rid r' \<in> set (map rid rs)"
  shows "find (\<lambda>x. rid x = rid r') (put r' rs) = Some r'"
proof -
  from mem have "find (\<lambda>x. rid x = rid r') (map (\<lambda>x. if rid x = rid r' then r' else x) rs) = Some r'"
    by (induction rs) auto
  with mem show ?thesis by (simp add: put_def)
qed

section \<open>The orchestrator: in progress before a terminal status\<close>








text \<open>
  C1, counterexample. The claim as stated fails in two runs.

  In a second run of a record, the documents saved in progress have both timestamps
  and \<open>reviewStartedAt\<close> later than \<open>reviewCompletedAt\<close>: the record failed, started
  at \<open>10\<close> and completed at \<open>20\<close>, is retried; \<open>retryReview\<close> saves it pending, and the
  run it starts, with the clock at \<open>1000\<close>, saves it three times in progress, started at
  \<open>1000\<close> and completed at \<open>20\<close>, since \<open>markInProgress\<close> leaves \<open>reviewCompletedAt\<close>
  as it was.

  When the store rejects the save of \<open>markInProgress\<close> and accepts the next one, the
  \<open>catch\<close> block stores the record as failed: the stored record goes from \<open>pending\<close>
  to \<open>failed\<close> and is never stored in progress.
\<close>

theorem rerun_starts_after_old_completion:
  "status review_failed = Failed
   \<and> reviewStartedAt review_failed = Some 10 \<and> reviewCompletedAt review_failed = Some 20
   \<and> map (\<lambda>x. (status (fst x), reviewStartedAt (fst x), reviewCompletedAt (fst x)))
        (saved (snd (snd (processReviewAsync env_ok ''o'' ''r'' 7 1
           (fst (snd (retryReview env_ok (Some ''o'') (Some ''r'') 7
              (world_of [review_failed]))))))))
      = [(Pending, Some 10, Some 20), (InProgress, Some 1000, Some 20),
         (InProgress, Some 1000, Some 20), (InProgress, Some 1000, Some 20),
         (Completed, Some 1000, Some 1001)]
   \<and> map status (store (world_of [review_pending])) = [Pending]
   \<and> saved_statuses (snd (snd (processReviewAsync env_save_rejected ''o'' ''r'' 7 1
        (world_of [review_pending])))) = [InProgress, Failed]
   \<and> stored_statuses (snd (snd (processReviewAsync env_save_rejected ''o'' ''r'' 7 1
        (world_of [review_pending])))) = [Failed]
   \<and> map status (store (snd (snd (processReviewAsync env_save_rejected ''o'' ''r'' 7 1
        (world_of [review_pending]))))) = [Failed]"
proof -
  have a: "status review_failed = Failed
      \<and> reviewStartedAt review_failed = Some 10 \<and> reviewCompletedAt review_failed = Some 20"
    by (simp add: review_failed_def review_pending_def)
  have retry: "fst (snd (retryReview env_ok (Some ''o'') (Some ''r'') 7 (world_of [review_failed])))
      = \<lparr>store = [review_failed\<lparr>retryCount := 1, status := Pending, errorMessage := None\<rparr>],
         dbOps = 2,
         saved = [(review_failed\<lparr>retryCount := 1, status := Pending, errorMessage := None\<rparr>, True)],
         dates = 0, botUser = None, calls = []\<rparr>"
    by (simp add: retryReview_def findByPR_def is_pr_def incrementRetry_def save_def put_def
        env_ok_def world_of_def review_failed_def review_pending_def Let_def)
  have b: "map (\<lambda>x. (status (fst x), reviewStartedAt (fst x), reviewCompletedAt (fst x)))
        (saved (snd (snd (processReviewAsync env_ok ''o'' ''r'' 7 1
           (fst (snd (retryReview env_ok (Some ''o'') (Some ''r'') 7
              (world_of [review_failed]))))))))
      = [(Pending, Some 10, Some 20), (InProgress, Some 1000, Some 20),
         (InProgress, Some 1000, Some 20), (InProgress, Some 1000, Some 20),
         (Completed, Some 1000, Some 1001)]"
    unfolding retry
    by (simp add: processReviewAsync_def processReviewAsync_try_def
        findById_def review_failed_def review_pending_def env_ok_def markInProgress_def
        new_Date_def save_def put_def hasAlreadyReviewed_def hasAlreadyReviewed_try_def
        getBotUser_def fetch_and_review_def prData_one_def files_of_def review_and_post_def
        generateReview_def generateReview_from.simps [of _ "Suc 0"] maxRetries_def
        markCompleted_def Let_def split: prod.splits)
  have c: "map status (store (world_of [review_pending])) = [Pending]"
    by (simp add: world_of_def review_pending_def)
  have over: "\<not> is_overloaded ''connection lost''"
    by (simp add: is_overloaded_def str_includes_def)
  have run: "snd (snd (processReviewAsync env_save_rejected ''o'' ''r'' 7 1
        (world_of [review_pending])))
      = \<lparr>store = [review_pending\<lparr>status := Failed, reviewStartedAt := Some 1000,
                    errorMessage := Some ''connection lost'',
                    reviewCompletedAt := Some 1001\<rparr>],
         dbOps = 3,
         saved = [(review_pending\<lparr>status := InProgress, reviewStartedAt := Some 1000\<rparr>, False),
                  (review_pending\<lparr>status := Failed, reviewStartedAt := Some 1000,
                    errorMessage := Some ''connection lost'',
                    reviewCompletedAt := Some 1001\<rparr>, True)],
         dates = 2, botUser = None, calls = []\<rparr>"
    using over
    by (simp add: processReviewAsync_def processReviewAsync_try_def processReviewAsync_catch_def
        findById_def world_of_def review_pending_def env_save_rejected_def env_ok_def
        markInProgress_def markFailed_def new_Date_def save_def put_def Let_def
        split: prod.splits)
  have d: "saved_statuses (snd (snd (processReviewAsync env_save_rejected ''o'' ''r'' 7 1
        (world_of [review_pending])))) = [InProgress, Failed]"
    unfolding run by (simp add: saved_statuses_def)
  have e: "stored_statuses (snd (snd (processReviewAsync env_save_rejected ''o'' ''r'' 7 1
        (world_of [review_pending])))) = [Failed]"
    unfolding run by (simp add: stored_statuses_def)
  have f: "map status (store (snd (snd (processReviewAsync env_save_rejected ''o'' ''r'' 7 1
        (world_of [review_pending]))))) = [Failed]"
    unfolding run by simp
  from a b c d e f show ?thesis by (intro conjI) simp_all
qed

section \<open>Double arithmetic\<close>

lemma round_half_even_near:
  "of_int (round_half_even y) \<le> y + 1 / 2 \<and> y - 1 / 2 \<le> of_int (round_half_even y)"
proof -
  define n where "n = \<lfloor>y\<rfloor>"
  have n: "of_int n \<le> y" "y < of_int n + 1" unfolding n_def by linarith+
  have "round_half_even y =
      (if y - of_int n < 1 / 2 then n else if 1 / 2 < y - of_int n then n + 1
       else if even n then n else n + 1)"
    by (simp add: round_half_even_def n_def Let_def)
  with n show ?thesis by auto
qed

lemma round_half_even_of_int: "round_half_even (of_int n) = n"
  by (simp add: round_half_even_def)

lemma round_half_even_ge: "of_int n \<le> y \<Longrightarrow> n \<le> round_half_even y"
proof -
  assume "of_int n \<le> y"
  then have "n \<le> \<lfloor>y\<rfloor>" by (simp add: le_floor_iff)
  then show ?thesis by (auto simp: round_half_even_def Let_def)
qed

lemma round_half_even_le:
  assumes "y \<le> of_int n"
  shows "round_half_even y \<le> n"
proof (cases "y = of_int n")
  case True
  then show ?thesis by (simp add: round_half_even_of_int)
next
  case False
  with assms have "y < of_int n" by simp
  then have "\<lfloor>y\<rfloor> < n" by (simp add: floor_less_iff)
  then show ?thesis by (auto simp: round_half_even_def Let_def)
qed

lemma exponent_bounds:
  assumes "0 < x"
  shows "2 powi (exponent x) \<le> x \<and> x < 2 powi (exponent x + 1)"
proof (cases "1 \<le> x")
  case True
  define n where "n = \<lfloor>x\<rfloor>"
  have n: "0 < n" "of_int n \<le> x" "x < of_int n + 1"
    using True by (simp_all add: n_def) linarith+
  define b where "b = nat (bitlen n - 1)"
  from bitlen_bounds [OF n(1)] have bb: "2 ^ b \<le> n" "n < 2 ^ nat (bitlen n)"
    by (simp_all add: b_def)
  have pos: "1 \<le> bitlen n" using n(1) bitlen_eq_zero_iff [of n] bitlen_nonneg [of n] by linarith
  then have b: "bitlen n - 1 = int b" "bitlen n = int (Suc b)" by (simp_all add: b_def)
  have e: "exponent x = int b" using True b by (simp add: exponent_def n_def)
  have "(of_int (2 ^ b) :: rat) \<le> of_int n" using bb(1) by (simp only: of_int_le_iff)
  then have "(2::rat) ^ b \<le> of_int n" by simp
  then have "2 ^ b \<le> x" using n(2) by (rule order_trans)
  then have lo: "2 powi (exponent x) \<le> x" unfolding e power_int_of_nat .
  have "nat (bitlen n) = Suc b" by (simp only: b(2) nat_int)
  with bb(2) have "n < 2 ^ Suc b" by (simp only:)
  then have "n + 1 \<le> 2 ^ Suc b" by linarith
  then have "(of_int (n + 1) :: rat) \<le> of_int (2 ^ Suc b)" by (simp only: of_int_le_iff)
  then have "x < 2 ^ Suc b" using n(3) by simp
  moreover have "exponent x + 1 = int (Suc b)" by (simp add: e)
  then have "(2::rat) powi (exponent x + 1) = 2 ^ Suc b"
    by (simp only: power_int_of_nat)
  ultimately show ?thesis using lo by simp
next
  case False
  define y where "y = 1 / x"
  have y: "1 < y" using False assms by (simp add: y_def)
  define m where "m = \<lceil>y\<rceil> - 1"
  have m: "0 < m" "of_int m < y" "y \<le> of_int m + 1"
    using y by (simp_all add: m_def) linarith+
  define b where "b = nat (bitlen m - 1)"
  from bitlen_bounds [OF m(1)] have bb: "2 ^ b \<le> m" "m < 2 ^ nat (bitlen m)"
    by (simp_all add: b_def)
  have pos: "1 \<le> bitlen m" using m(1) bitlen_eq_zero_iff [of m] bitlen_nonneg [of m] by linarith
  then have b: "bitlen m = int (Suc b)" by (simp_all add: b_def)
  have e: "exponent x = - int (Suc b)" using False b by (simp add: exponent_def m_def y_def)
  have "(of_int (2 ^ b) :: rat) \<le> of_int m" using bb(1) by (simp only: of_int_le_iff)
  then have "(2::rat) ^ b \<le> of_int m" by simp
  then have "2 ^ b < y" using m(2) by (rule le_less_trans)
  then have up: "x < 1 / 2 ^ b" using assms by (simp add: y_def field_simps)
  have "nat (bitlen m) = Suc b" by (simp only: b nat_int)
  with bb(2) have "m < 2 ^ Suc b" by (simp only:)
  then have "m + 1 \<le> 2 ^ Suc b" by linarith
  then have "(of_int (m + 1) :: rat) \<le> of_int (2 ^ Suc b)" by (simp only: of_int_le_iff)
  then have "y \<le> 2 ^ Suc b" using m(3) by simp
  then have lo: "1 / 2 ^ Suc b \<le> x" using assms by (simp add: y_def field_simps)
  have p1: "(2::rat) powi (exponent x) = 1 / 2 ^ Suc b"
    by (simp only: e power_int_minus_divide power_int_of_nat)
  have "exponent x + 1 = - int b" by (simp add: e)
  then have p2: "(2::rat) powi (exponent x + 1) = 1 / 2 ^ b"
    by (simp only: power_int_minus_divide power_int_of_nat)
  show ?thesis using lo up unfolding p1 p2 by simp
qed


lemma exponent_less:
  assumes "0 < x" and "x < 2 powi k" and "0 \<le> k"
  shows "exponent x < k"
proof -
  from exponent_bounds [OF assms(1)] assms(2) have "(2::rat) powi (exponent x) < 2 powi k"
    by simp
  with assms(3) show ?thesis by (intro power_int_le_imp_less_exp [of "2::rat"]) simp_all
qed

lemma ulp_pos: "0 < ulp x"
  by (simp add: ulp_def)

text \<open>Below \<open>2 ^ 53\<close> every integer is a multiple of the unit in the last place.\<close>

lemma ulp_divides_int:
  assumes "0 < x" and "x < 2 ^ 53"
  shows "\<exists>m. (of_int k :: rat) = of_int m * ulp x"
proof -
  have "x < 2 powi 53" using assms(2) by simp
  from exponent_less [OF assms(1) this] have "max (exponent x) (- 1022) - 52 \<le> 0" by simp
  then obtain j where j: "max (exponent x) (- 1022) - 52 = - int j"
    by (metis nonpos_int_cases)
  have u: "ulp x = 1 / 2 ^ j"
    by (simp only: ulp_def j power_int_minus_divide power_int_of_nat)
  have "(of_int k :: rat) = of_int (k * 2 ^ j) * ulp x" by (simp add: u)
  then show ?thesis by blast
qed

lemma round_double_pos:
  "0 < x \<Longrightarrow> round_double x = of_int (round_half_even (x / ulp x)) * ulp x"
  by (simp add: round_double_def)

lemma round_double_le:
  assumes "0 < x" and "x \<le> of_int m * ulp x"
  shows "round_double x \<le> of_int m * ulp x"
proof -
  have "x / ulp x \<le> of_int m" using assms(2) ulp_pos [of x] by (simp add: field_simps)
  then have "round_half_even (x / ulp x) \<le> m" by (rule round_half_even_le)
  then have "(of_int (round_half_even (x / ulp x)) :: rat) \<le> of_int m" by simp
  then show ?thesis using ulp_pos [of x] by (simp add: round_double_pos [OF assms(1)])
qed

lemma round_double_ge:
  assumes "0 < x" and "of_int m * ulp x \<le> x"
  shows "of_int m * ulp x \<le> round_double x"
proof -
  have "of_int m \<le> x / ulp x" using assms(2) ulp_pos [of x] by (simp add: field_simps)
  then have "m \<le> round_half_even (x / ulp x)" by (rule round_half_even_ge)
  then have "(of_int m :: rat) \<le> of_int (round_half_even (x / ulp x))" by simp
  then show ?thesis using ulp_pos [of x] by (simp add: round_double_pos [OF assms(1)])
qed

lemma round_double_nonneg: "0 \<le> x \<Longrightarrow> 0 \<le> round_double x"
proof (cases "x = 0")
  case True
  then show ?thesis by (simp add: round_double_def)
next
  case False
  assume "0 \<le> x"
  with False have x: "0 < x" by simp
  from round_double_ge [OF x, of 0] x show ?thesis by simp
qed

text \<open>An integer below \<open>2 ^ 53\<close> is a double.\<close>

lemma round_double_of_int:
  assumes "0 \<le> k" and "(of_int k :: rat) < 2 ^ 53"
  shows "round_double (of_int k) = of_int k"
proof (cases "k = 0")
  case True
  then show ?thesis by (simp add: round_double_def)
next
  case False
  with assms(1) have x: "0 < (of_int k :: rat)" by simp
  from ulp_divides_int [OF x assms(2), of k] obtain m
    where m: "(of_int k :: rat) = of_int m * ulp (of_int k)" by blast
  from round_double_le [OF x, of m] round_double_ge [OF x, of m] m show ?thesis by simp
qed

text \<open>The result is within half a unit in the last place of the exact value.\<close>

lemma round_double_near:
  assumes "0 < x"
  shows "\<bar>round_double x - x\<bar> \<le> ulp x / 2"
proof -
  define y where "y = x / ulp x"
  have x: "x = y * ulp x" using ulp_pos [of x] by (simp add: y_def)
  from round_half_even_near [of y]
  have "\<bar>of_int (round_half_even y) - y\<bar> \<le> 1 / 2" by linarith
  then have "\<bar>of_int (round_half_even y) - y\<bar> * ulp x \<le> 1 / 2 * ulp x"
    using ulp_pos [of x] by (simp only: mult_le_cancel_right_pos)
  moreover have "round_double x - x = (of_int (round_half_even y) - y) * ulp x"
    using x by (simp add: round_double_pos [OF assms] y_def algebra_simps)
  ultimately show ?thesis using ulp_pos [of x] by (simp add: abs_mult)
qed

lemma ulp_le:
  assumes "0 < x" and "x < 2 powi k" and "0 \<le> k"
  shows "ulp x \<le> 2 powi (k - 53)"
proof -
  from exponent_less [OF assms] have "max (exponent x) (- 1022) - 52 \<le> k - 53" using assms(3) by simp
  then show ?thesis unfolding ulp_def by (intro power_int_increasing) simp_all
qed


text \<open>The largest double below \<open>1\<close> is \<open>1 - 2 ^ - 53\<close>.\<close>

lemma double_below_one:
  assumes "is_double r" and "0 < r" and "r < 1"
  shows "r \<le> 1 - 1 / 2 ^ 53"
proof -
  have "r < 2 powi 0" using assms(3) by simp
  from exponent_less [OF assms(2) this] have neg: "exponent r < 0" by simp
  show ?thesis
  proof (cases "exponent r = - 1")
    case True
    then have u: "ulp r = 1 / 2 ^ 53" by (simp add: ulp_def power_int_minus_divide)
    define k where "k = round_half_even (r / ulp r)"
    have r: "r = of_int k / 2 ^ 53"
      using assms(1) round_double_pos [OF assms(2)] by (simp add: is_double_def k_def u)
    with assms(3) have "(of_int k :: rat) < of_int (2 ^ 53)" by simp
    then have "k < 2 ^ 53" by (simp only: of_int_less_iff)
    then have "k \<le> 2 ^ 53 - 1" by simp
    then have "(of_int k :: rat) \<le> of_int (2 ^ 53 - 1)" by (simp only: of_int_le_iff)
    then show ?thesis by (simp add: r field_simps)
  next
    case False
    with neg have "exponent r + 1 \<le> - 1" by simp
    then have "(2::rat) powi (exponent r + 1) \<le> 2 powi (- 1)"
      by (intro power_int_increasing) simp_all
    with exponent_bounds [OF assms(2)] have "r < 1 / 2" by simp
    then show ?thesis by simp
  qed
qed

text \<open>
  \<open>Math.random() * 1000\<close> is below \<open>1000\<close>: the product of the largest double below
  \<open>1\<close> and \<open>1000\<close> rounds down.
\<close>

lemma jitter_range:
  assumes "is_double r" and "0 \<le> r" and "r < 1"
  shows "0 \<le> round_double (r * 1000) \<and> round_double (r * 1000) < 1000
     \<and> \<bar>round_double (r * 1000) - r * 1000\<bar> \<le> 1 / 2 ^ 44"
proof (cases "r = 0")
  case True
  then show ?thesis by (simp add: round_double_def)
next
  case False
  with assms(2) have r: "0 < r" by simp
  define x where "x = r * 1000"
  have x: "0 < x" "x < 2 powi 10" using r assms(3) by (simp_all add: x_def)
  from double_below_one [OF assms(1) r assms(3)]
  have top: "x \<le> 1000 - 1000 / 2 ^ 53" by (simp add: x_def)
  from exponent_less [OF x] have "max (exponent x) (- 1022) - 52 \<le> - 43" by simp
  then have "\<exists>j. max (exponent x) (- 1022) - 52 = - int j \<and> 43 \<le> j"
    by (intro exI [of _ "nat (52 - max (exponent x) (- 1022))"]) linarith
  then obtain j where j: "max (exponent x) (- 1022) - 52 = - int j" "43 \<le> j" by blast
  have u: "ulp x = 1 / 2 ^ j"
    by (simp only: ulp_def j(1) power_int_minus_divide power_int_of_nat)
  have big: "(2::rat) ^ 43 \<le> 2 ^ j" using j(2) by (intro power_increasing) simp_all
  define y where "y = x / ulp x"
  have "y = x * 2 ^ j" by (simp add: y_def u)
  also have "\<dots> \<le> (1000 - 1000 / 2 ^ 53) * 2 ^ j" using top by simp
  also have "\<dots> = 1000 * 2 ^ j - 1000 * 2 ^ j / 2 ^ 53" by (simp add: algebra_simps)
  also have "\<dots> < 1000 * 2 ^ j - 1 / 2" using big by simp
  finally have "y + 1 / 2 < of_int (1000 * 2 ^ j)" by simp
  with round_half_even_near [of y] have "(of_int (round_half_even y) :: rat) < of_int (1000 * 2 ^ j)"
    by linarith
  then have "round_half_even y < 1000 * 2 ^ j" by (simp only: of_int_less_iff)
  then have "round_half_even y \<le> 1000 * 2 ^ j - 1" by simp
  then have "(of_int (round_half_even y) :: rat) \<le> of_int (1000 * 2 ^ j - 1)"
    by (simp only: of_int_le_iff)
  then have "of_int (round_half_even y) / 2 ^ j \<le> (1000 * 2 ^ j - 1) / (2::rat) ^ j"
    by (simp add: divide_right_mono)
  moreover have "round_double x = of_int (round_half_even y) / 2 ^ j"
    by (simp add: round_double_pos [OF x(1)] y_def u)
  moreover have "(1000 * 2 ^ j - 1) / (2::rat) ^ j = 1000 - 1 / 2 ^ j"
    by (simp add: field_simps)
  ultimately have "round_double x \<le> 1000 - 1 / 2 ^ j" by (simp only:)
  moreover have "0 < 1 / (2::rat) ^ j" by simp
  ultimately have lt: "round_double x < 1000" by linarith
  have "ulp x \<le> 2 powi (10 - 53)" using ulp_le [OF x] by simp
  then have "ulp x / 2 \<le> 1 / 2 ^ 44" by (simp add: power_int_minus_divide)
  with round_double_near [OF x(1)] have "\<bar>round_double x - x\<bar> \<le> 1 / 2 ^ 44" by simp
  with lt round_double_nonneg [of x] x(1) show ?thesis by (simp add: x_def)
qed

text \<open>
  The sum of an integer base and a jitter below \<open>1000\<close> is rounded to a double between
  the base and the base plus \<open>1000\<close>.
\<close>

lemma wait_range:
  assumes "0 < b" and "b \<le> 32000" and "0 \<le> j" and "j < 1000"
  shows "of_int b \<le> round_double (of_int b + j) \<and> round_double (of_int b + j) \<le> of_int b + 1000
     \<and> \<bar>round_double (of_int b + j) - (of_int b + j)\<bar> \<le> 1 / 2 ^ 38"
proof -
  define x where "x = of_int b + j"
  have b: "(0::rat) < of_int b" "(of_int b :: rat) \<le> 32000" using assms(1,2) by simp_all
  have x: "0 < x" "x < 2 powi 16" "x < 2 ^ 53" using b assms(3,4) by (simp_all add: x_def)
  from ulp_divides_int [OF x(1,3), of b] obtain m where m: "(of_int b :: rat) = of_int m * ulp x"
    by blast
  from ulp_divides_int [OF x(1,3), of "b + 1000"] obtain m'
    where m': "(of_int (b + 1000) :: rat) = of_int m' * ulp x" by blast
  have "of_int b \<le> x" using assms(3) by (simp add: x_def)
  then have "of_int m * ulp x \<le> x" by (simp only: m)
  from round_double_ge [OF x(1) this] have lo: "of_int b \<le> round_double x" by (simp only: m)
  have "x \<le> of_int (b + 1000)" using assms(4) by (simp add: x_def)
  then have "x \<le> of_int m' * ulp x" by (simp only: m')
  from round_double_le [OF x(1) this] have "round_double x \<le> of_int (b + 1000)" by (simp only: m')
  then have hi: "round_double x \<le> of_int b + 1000" by simp
  have "ulp x \<le> 2 powi (16 - 53)" using ulp_le [OF x(1,2)] by simp
  then have "ulp x / 2 \<le> 1 / 2 ^ 38" by (simp add: power_int_minus_divide)
  with round_double_near [OF x(1)] have "\<bar>round_double x - x\<bar> \<le> 1 / 2 ^ 38" by simp
  with lo hi show ?thesis by (simp add: x_def)
qed

section \<open>The retry loop\<close>

lemma attempt_calls_step:
  "a < n \<Longrightarrow>
     attempt_calls e a n = GenerateContent a # Sleep (waitTime e a) # attempt_calls e (Suc a) n"
  by (simp add: attempt_calls_def upt_conv_Cons)

lemma attempt_calls_self: "attempt_calls e n n = [GenerateContent n]"
  by (simp add: attempt_calls_def)

text \<open>
  The loop from attempt \<open>a\<close> on ends with some attempt \<open>n\<close>: the attempts before it
  failed with an overload error and were each followed by the timer, and \<open>n\<close> is the
  last allowed attempt or did not fail with an overload error. The result is that of
  attempt \<open>n\<close>: the parsed response, or the error thrown after the loop.
\<close>

lemma generateReview_from_run:
  "a \<le> maxRetries \<Longrightarrow>
   \<exists>n. a \<le> n \<and> n \<le> maxRetries
     \<and> snd (generateReview_from e a lastError cs) = cs @ attempt_calls e a n
     \<and> (\<forall>k. a \<le> k \<and> k < n \<longrightarrow> retryable_failure e k)
     \<and> (n = maxRetries \<or> \<not> retryable_failure e n)
     \<and> fst (generateReview_from e a lastError cs) =
         (case generateContent e n of
            Inr t \<Rightarrow> Inr (parseReviewResponse e t)
          | Inl m \<Rightarrow> Inl (throw_failed (Some m)))"
proof (induction e a lastError cs rule: generateReview_from.induct)
  case (1 e attempt lastError cs)
  show ?case
  proof (cases "generateContent e attempt")
    case (Inr t)
    with "1.prems" have "generateReview_from e attempt lastError cs
        = (Inr (parseReviewResponse e t), cs @ attempt_calls e attempt attempt)"
      by (simp add: generateReview_from.simps [of e attempt] attempt_calls_self)
    moreover have "\<not> retryable_failure e attempt"
      using Inr by (simp add: retryable_failure_def)
    ultimately show ?thesis using "1.prems" Inr by (intro exI [of _ attempt]) auto
  next
    case (Inl m)
    show ?thesis
    proof (cases "is_overloaded m \<and> attempt < maxRetries")
      case True
      then have le: "attempt + 1 \<le> maxRetries" by simp
      let ?cs = "cs @ [GenerateContent attempt, Sleep (waitTime e attempt)]"
      from "1.IH" [OF "1.prems" Inl True le]
      obtain n where n: "attempt + 1 \<le> n" "n \<le> maxRetries"
        "snd (generateReview_from e (attempt + 1) (Some m) ?cs)
           = ?cs @ attempt_calls e (attempt + 1) n"
        "\<forall>k. attempt + 1 \<le> k \<and> k < n \<longrightarrow> retryable_failure e k"
        "n = maxRetries \<or> \<not> retryable_failure e n"
        "fst (generateReview_from e (attempt + 1) (Some m) ?cs) =
           (case generateContent e n of
              Inr t \<Rightarrow> Inr (parseReviewResponse e t)
            | Inl m \<Rightarrow> Inl (throw_failed (Some m)))"
        by blast
      have here: "retryable_failure e attempt"
        using Inl True by (simp add: retryable_failure_def)
      have step: "generateReview_from e attempt lastError cs
          = generateReview_from e (attempt + 1) (Some m) ?cs"
        using "1.prems" Inl True by (simp add: generateReview_from.simps [of e attempt])
      have "snd (generateReview_from e attempt lastError cs) = cs @ attempt_calls e attempt n"
        using n(1,3) by (simp add: step attempt_calls_step)
      moreover have "\<forall>k. attempt \<le> k \<and> k < n \<longrightarrow> retryable_failure e k"
      proof (intro allI impI)
        fix k
        assume k: "attempt \<le> k \<and> k < n"
        show "retryable_failure e k"
        proof (cases "k = attempt")
          case True
          then show ?thesis using here by simp
        next
          case False
          then show ?thesis using k n(4) by simp
        qed
      qed
      ultimately show ?thesis using n(1,2,5,6) step by (intro exI [of _ n]) simp
    next
      case False
      with "1.prems" Inl have "generateReview_from e attempt lastError cs
          = (Inl (throw_failed (Some m)), cs @ attempt_calls e attempt attempt)"
        by (auto simp add: generateReview_from.simps [of e attempt] attempt_calls_self)
      moreover have "attempt = maxRetries \<or> \<not> retryable_failure e attempt"
        using False Inl "1.prems" by (auto simp: retryable_failure_def)
      ultimately show ?thesis using "1.prems" Inl by (intro exI [of _ attempt]) auto
    qed
  qed
qed

text \<open>
  The three constants for an attempt of the loop, when \<open>Math.random()\<close> gives the
  double \<open>r\<close> in \<open>[0, 1)\<close>.
\<close>

lemma wait_bounds:
  assumes r: "is_double (Math_random e N) \<and> 0 \<le> Math_random e N \<and> Math_random e N < 1"
    and N: "1 \<le> N \<and> N \<le> 5"
  shows "baseWaitTime N = 2 ^ N * 1000
     \<and> jitter e N = round_double (Math_random e N * 1000)
     \<and> 0 \<le> jitter e N \<and> jitter e N < 1000
     \<and> \<bar>jitter e N - Math_random e N * 1000\<bar> \<le> 1 / 2 ^ 44
     \<and> waitTime e N = round_double (2 ^ N * 1000 + jitter e N)
     \<and> 2 ^ N * 1000 \<le> waitTime e N \<and> waitTime e N \<le> 2 ^ N * 1000 + 1000
     \<and> \<bar>waitTime e N - (2 ^ N * 1000 + jitter e N)\<bar> \<le> 1 / 2 ^ 38"
proof -
  define b :: int where "b = 2 ^ N * 1000"
  have "(2::int) ^ N \<le> 2 ^ 5" using N by (intro power_increasing) simp_all
  then have b: "0 < b" "b \<le> 32000" by (simp_all add: b_def)
  have bq: "(of_int b :: rat) = 2 ^ N * 1000" by (simp add: b_def)
  have "(of_int b :: rat) \<le> of_int 32000" using b(2) by (simp only: of_int_le_iff)
  then have "(of_int b :: rat) < 2 ^ 53" by simp
  with b(1) have "round_double (of_int b) = of_int b" by (intro round_double_of_int) simp_all
  then have base: "baseWaitTime N = 2 ^ N * 1000" by (simp add: baseWaitTime_def bq)
  from r have j: "0 \<le> jitter e N" "jitter e N < 1000"
    "\<bar>jitter e N - Math_random e N * 1000\<bar> \<le> 1 / 2 ^ 44"
    using jitter_range [of "Math_random e N"] by (simp_all add: jitter_def)
  have w: "waitTime e N = round_double (of_int b + jitter e N)"
    by (simp add: waitTime_def base bq)
  from wait_range [OF b j(1,2)] base j w show ?thesis
    by (simp add: bq jitter_def)
qed

text \<open>
  C2. When \<open>Math.random()\<close> gives doubles in \<open>[0, 1)\<close>, a call of \<open>generateReview\<close>
  makes \<open>n\<close> attempts, \<open>1 \<le> n \<le> 5\<close>: attempts \<open>1\<close> to \<open>n - 1\<close> fail with an overload
  error, attempt \<open>n\<close> is the fifth or does not, and the calls are attempt \<open>1\<close>, the
  timer, attempt \<open>2\<close>, the timer, ..., attempt \<open>n\<close>. The timer after the failed attempt
  \<open>N\<close> (before retry \<open>N\<close>) is set to \<open>waitTime\<close>, the sum in double arithmetic of the
  base and the jitter. The base is exactly \<open>2 ^ N\<close> seconds. The jitter is the product
  in double arithmetic of \<open>Math.random()\<close> and \<open>1000\<close>, at least \<open>0\<close> and below \<open>1000\<close>
  milliseconds. The sum is at least the base and at most the base plus one second, and
  differs from the exact sum by at most \<open>2 ^ - 38\<close> milliseconds.
\<close>

theorem generateReview_backoff:
  assumes "\<forall>k. is_double (Math_random e k) \<and> 0 \<le> Math_random e k \<and> Math_random e k < 1"
  shows "\<exists>n. 1 \<le> n \<and> n \<le> 5
     \<and> snd (generateReview e prData cs) = cs @ attempt_calls e 1 n
     \<and> (\<forall>N. 1 \<le> N \<and> N < n \<longrightarrow> retryable_failure e N)
     \<and> (n = 5 \<or> \<not> retryable_failure e n)
     \<and> (\<forall>N. 1 \<le> N \<and> N \<le> 5 \<longrightarrow>
           baseWaitTime N = 2 ^ N * 1000
           \<and> jitter e N = round_double (Math_random e N * 1000)
           \<and> 0 \<le> jitter e N \<and> jitter e N < 1000
           \<and> \<bar>jitter e N - Math_random e N * 1000\<bar> \<le> 1 / 2 ^ 44
           \<and> waitTime e N = round_double (2 ^ N * 1000 + jitter e N)
           \<and> 2 ^ N * 1000 \<le> waitTime e N \<and> waitTime e N \<le> 2 ^ N * 1000 + 1000
           \<and> \<bar>waitTime e N - (2 ^ N * 1000 + jitter e N)\<bar> \<le> 1 / 2 ^ 38)"
proof -
  have "(1::nat) \<le> maxRetries" by (simp add: maxRetries_def)
  from generateReview_from_run [OF this, of e None cs]
  obtain n where n: "1 \<le> n" "n \<le> maxRetries"
    "snd (generateReview_from e 1 None cs) = cs @ attempt_calls e 1 n"
    "\<forall>k. 1 \<le> k \<and> k < n \<longrightarrow> retryable_failure e k"
    "n = maxRetries \<or> \<not> retryable_failure e n" by blast
  have "n \<le> 5" "snd (generateReview e prData cs) = cs @ attempt_calls e 1 n"
    "n = 5 \<or> \<not> retryable_failure e n"
    using n(2,3,5) by (simp_all add: generateReview_def maxRetries_def)
  moreover have "\<forall>N. 1 \<le> N \<and> N \<le> 5 \<longrightarrow>
           baseWaitTime N = 2 ^ N * 1000
           \<and> jitter e N = round_double (Math_random e N * 1000)
           \<and> 0 \<le> jitter e N \<and> jitter e N < 1000
           \<and> \<bar>jitter e N - Math_random e N * 1000\<bar> \<le> 1 / 2 ^ 44
           \<and> waitTime e N = round_double (2 ^ N * 1000 + jitter e N)
           \<and> 2 ^ N * 1000 \<le> waitTime e N \<and> waitTime e N \<le> 2 ^ N * 1000 + 1000
           \<and> \<bar>waitTime e N - (2 ^ N * 1000 + jitter e N)\<bar> \<le> 1 / 2 ^ 38"
    using wait_bounds assms by blast
  ultimately show ?thesis using n(1,4) by blast
qed

theorem generateReview_backoff_witness:
  "(\<forall>k. is_double (Math_random env_overloaded_twice k)
        \<and> 0 \<le> Math_random env_overloaded_twice k \<and> Math_random env_overloaded_twice k < 1)
   \<and> (\<exists>n. 1 \<le> n \<and> n \<le> 5
        \<and> snd (generateReview env_overloaded_twice prData_one [])
            = [] @ attempt_calls env_overloaded_twice 1 n
        \<and> (\<forall>N. 1 \<le> N \<and> N < n \<longrightarrow> retryable_failure env_overloaded_twice N)
        \<and> (n = 5 \<or> \<not> retryable_failure env_overloaded_twice n)
        \<and> (\<forall>N. 1 \<le> N \<and> N \<le> 5 \<longrightarrow>
              baseWaitTime N = 2 ^ N * 1000
              \<and> jitter env_overloaded_twice N
                  = round_double (Math_random env_overloaded_twice N * 1000)
              \<and> 0 \<le> jitter env_overloaded_twice N \<and> jitter env_overloaded_twice N < 1000
              \<and> \<bar>jitter env_overloaded_twice N - Math_random env_overloaded_twice N * 1000\<bar>
                  \<le> 1 / 2 ^ 44
              \<and> waitTime env_overloaded_twice N
                  = round_double (2 ^ N * 1000 + jitter env_overloaded_twice N)
              \<and> 2 ^ N * 1000 \<le> waitTime env_overloaded_twice N
              \<and> waitTime env_overloaded_twice N \<le> 2 ^ N * 1000 + 1000
              \<and> \<bar>waitTime env_overloaded_twice N
                    - (2 ^ N * 1000 + jitter env_overloaded_twice N)\<bar> \<le> 1 / 2 ^ 38))
   \<and> snd (generateReview env_overloaded_twice prData_one [])
       = [GenerateContent 1, Sleep 2500, GenerateContent 2, Sleep 4500, GenerateContent 3]"
proof -
  have d: "is_double (1 / 2)" by code_simp
  have h: "\<forall>k. is_double (Math_random env_overloaded_twice k)
        \<and> 0 \<le> Math_random env_overloaded_twice k \<and> Math_random env_overloaded_twice k < 1"
    using d by (simp add: env_overloaded_twice_def env_ok_def)
  have run: "snd (generateReview env_overloaded_twice prData_one [])
       = [GenerateContent 1, Sleep 2500, GenerateContent 2, Sleep 4500, GenerateContent 3]"
    by code_simp
  from generateReview_backoff [OF h, of prData_one "[]"] h run show ?thesis by blast
qed

text \<open>
  The upper end is reached: when \<open>Math.random()\<close> gives the largest double below \<open>1\<close>,
  the jitter is the largest double below \<open>1000\<close>, and the sum of \<open>2000\<close> and that
  jitter, which lies halfway between two doubles, is rounded to \<open>3000\<close>.
\<close>

lemma waitTime_upper_end:
  "is_double (1 - 1 / 2 ^ 53)
   \<and> jitter (env_ok\<lparr>Math_random := (\<lambda>k. 1 - 1 / 2 ^ 53)\<rparr>) 1 = 1000 - 1 / 2 ^ 43
   \<and> waitTime (env_ok\<lparr>Math_random := (\<lambda>k. 1 - 1 / 2 ^ 53)\<rparr>) 1 = 3000"
  by code_simp

text \<open>
  A fatal error in the first attempt: one call is made, and the error thrown names
  \<open>maxRetries\<close> attempts.
\<close>

lemma generateReview_fatal_first_attempt:
  assumes "generateContent e 1 = Inl m" and "\<not> is_overloaded m"
  shows "generateReview e prData cs =
           (Inl (''Failed to generate code review after 5 attempts: '' @ m),
            cs @ [GenerateContent 1])"
  using assms
  by (simp add: generateReview_def generateReview_from.simps [of e "Suc 0"] maxRetries_def
      throw_failed_def show_nat_5)

text \<open>
  C8. The retry loop aborts on a fatal failure and throws one error that carries the
  message of the last failure, but the number of attempts in it is always
  \<open>maxRetries\<close>: when the first attempt fails with the fatal error
  \<open>API key not valid\<close>, one attempt is made and the error says
  \<open>after 5 attempts\<close>.
\<close>

theorem generateReview_fatal_says_five_attempts:
  "generateReview (env_ok\<lparr>generateContent := (\<lambda>k. Inl ''API key not valid'')\<rparr>) prData_one []
     = (Inl ''Failed to generate code review after 5 attempts: API key not valid'',
        [GenerateContent 1])"
proof -
  have "\<not> is_overloaded ''API key not valid''"
    by (simp add: is_overloaded_def str_includes_def)
  then show ?thesis
    using generateReview_fatal_first_attempt
      [of "env_ok\<lparr>generateContent := (\<lambda>k. Inl ''API key not valid'')\<rparr>"
          "''API key not valid''" prData_one "[]"]
    by simp
qed

section \<open>Parsing the response\<close>

lemma indexOf_char:
  "indexOf [c] s = Some i \<Longrightarrow> i < length s \<and> s ! i = c \<and> c \<notin> set (take i s)"
proof (induction s arbitrary: i)
  case Nil
  then show ?case by simp
next
  case (Cons x xs)
  show ?case
  proof (cases "x = c")
    case True
    with Cons.prems show ?thesis by simp
  next
    case False
    with Cons.prems obtain k where k: "indexOf [c] xs = Some k" "i = Suc k" by auto
    from Cons.IH [OF k(1)] False k(2) show ?thesis by simp
  qed
qed

lemma lastIndexOf_None: "lastIndexOf [c] s = None \<Longrightarrow> c \<notin> set s"
  by (induction s) (auto split: option.splits if_splits)

lemma lastIndexOf_char:
  "lastIndexOf [c] s = Some j \<Longrightarrow> j < length s \<and> s ! j = c \<and> c \<notin> set (drop (Suc j) s)"
proof (induction s arbitrary: j)
  case Nil
  then show ?case by simp
next
  case (Cons x xs)
  show ?case
  proof (cases "lastIndexOf [c] xs")
    case None
    with Cons.prems have j: "j = 0" "x = c" by (auto split: if_splits)
    with lastIndexOf_None [OF None] show ?thesis by simp
  next
    case (Some k)
    with Cons.prems have "j = Suc k" by simp
    with Cons.IH [OF Some] show ?thesis by simp
  qed
qed

text \<open>
  What the second parse reads is the text between the outermost brackets: it begins
  with the first opening bracket of the response and ends with its last closing one.
\<close>

lemma jsonPart_outermost:
  assumes "jsonPart text = Some part"
  shows "\<exists>pre mid post. text = pre @ part @ post \<and> part = ''['' @ mid @ '']''
           \<and> CHR ''['' \<notin> set pre \<and> CHR '']'' \<notin> set post"
proof -
  from assms obtain i j where ij: "indexOf ''['' text = Some i" "lastIndexOf '']'' text = Some j"
    "i < j" and part: "part = substring text i (j + 1)"
    by (auto simp: jsonPart_def split: option.splits if_splits)
  from indexOf_char [OF ij(1)] have i: "i < length text" "text ! i = CHR ''[''"
    "CHR ''['' \<notin> set (take i text)" by simp_all
  from lastIndexOf_char [OF ij(2)] have j: "j < length text" "text ! j = CHR '']''"
    "CHR '']'' \<notin> set (drop (Suc j) text)" by simp_all
  have split: "text = take i text @ part @ drop (Suc j) text"
  proof -
    have "drop i text = take (Suc j - i) (drop i text) @ drop (Suc j - i) (drop i text)"
      by (rule append_take_drop_id [symmetric])
    moreover have "drop (Suc j - i) (drop i text) = drop (Suc j) text"
      using ij(3) by simp
    ultimately have "drop i text = part @ drop (Suc j) text"
      by (simp only: part substring_def Suc_eq_plus1)
    then show ?thesis by (metis append_take_drop_id)
  qed
  have len: "length part = Suc j - i" using j(1) ij(3) by (simp add: part substring_def)
  have first: "part ! 0 = CHR ''[''" using i ij(3) j(1) by (simp add: part substring_def)
  have final: "part ! (j - i) = CHR '']''" using j ij(3) by (simp add: part substring_def)
  define mid where "mid = take (j - i - 1) (drop 1 part)"
  have "part = ''['' @ mid @ '']''"
  proof (rule nth_equalityI)
    show "length part = length (''['' @ mid @ '']'')"
      using len ij(3) by (simp add: mid_def)
  next
    fix k
    assume k: "k < length part"
    show "part ! k = (''['' @ mid @ '']'') ! k"
    proof (cases "k = 0")
      case True
      then show ?thesis using first by simp
    next
      case False
      note k0 = this
      show ?thesis
      proof (cases "k = j - i")
        case True
        then show ?thesis using final len ij(3) by (simp add: mid_def nth_append)
      next
        case False
        then have "k - 1 < j - i - 1" using k k0 len by simp
        then show ?thesis using k0 len k by (simp add: mid_def nth_append)
      qed
    qed
  qed
  with split i(3) j(3) show ?thesis by blast
qed

text \<open>
  The second parse finds the part whenever there is one to find: for a response with
  an opening bracket before a closing one, the part runs from the first opening bracket
  to the last closing bracket.
\<close>

lemma indexOf_first: "c \<notin> set pre \<Longrightarrow> indexOf [c] (pre @ c # rest) = Some (length pre)"
  by (induction pre) auto

lemma lastIndexOf_absent: "c \<notin> set s \<Longrightarrow> lastIndexOf [c] s = None"
  by (induction s) auto

lemma lastIndexOf_last: "c \<notin> set post \<Longrightarrow> lastIndexOf [c] (xs @ c # post) = Some (length xs)"
  by (induction xs) (auto simp: lastIndexOf_absent)

lemma jsonPart_found:
  assumes "CHR ''['' \<notin> set pre" and "CHR '']'' \<notin> set post"
  shows "jsonPart (pre @ ''['' @ mid @ '']'' @ post) = Some (''['' @ mid @ '']'')"
proof -
  let ?text = "pre @ ''['' @ mid @ '']'' @ post"
  have i: "indexOf ''['' ?text = Some (length pre)"
    using indexOf_first [OF assms(1), of "mid @ '']'' @ post"] by simp
  have "?text = (pre @ ''['' @ mid) @ CHR '']'' # post" by simp
  then have j: "lastIndexOf '']'' ?text = Some (length pre + 1 + length mid)"
    using lastIndexOf_last [OF assms(2), of "pre @ ''['' @ mid"] by simp
  have "substring ?text (length pre) (length pre + 1 + length mid + 1) = ''['' @ mid @ '']''"
    by (simp add: substring_def)
  with i j show ?thesis by (simp add: jsonPart_def)
qed

lemma jsonPart_None_iff:
  "jsonPart text = None \<longleftrightarrow> (\<nexists>pre mid post. text = pre @ ''['' @ mid @ '']'' @ post)"
proof
  assume none: "jsonPart text = None"
  show "\<nexists>pre mid post. text = pre @ ''['' @ mid @ '']'' @ post"
  proof
    assume "\<exists>pre mid post. text = pre @ ''['' @ mid @ '']'' @ post"
    then obtain pre mid post where t: "text = (pre @ ''['' @ mid) @ '']'' @ post" by auto
    have "CHR ''['' \<in> set (pre @ ''['' @ mid)" by simp
    from split_list_first [OF this] obtain pre' m1
      where a: "pre @ ''['' @ mid = pre' @ CHR ''['' # m1" "CHR ''['' \<notin> set pre'" by blast
    have "CHR '']'' \<in> set ('']'' @ post)" by simp
    from split_list_last [OF this] obtain m2 post'
      where b: "'']'' @ post = m2 @ CHR '']'' # post'" "CHR '']'' \<notin> set post'" by blast
    have "text = pre' @ ''['' @ (m1 @ m2) @ '']'' @ post'"
      using t a(1) b(1) by simp
    with jsonPart_found [OF a(2) b(2), of "m1 @ m2"] none show False by simp
  qed
next
  assume no: "\<nexists>pre mid post. text = pre @ ''['' @ mid @ '']'' @ post"
  show "jsonPart text = None"
  proof (cases "jsonPart text")
    case None
    then show ?thesis .
  next
    case (Some part)
    from jsonPart_outermost [OF Some] obtain pre mid post
      where "text = pre @ part @ post" "part = ''['' @ mid @ '']''" by blast
    then have "text = pre @ ''['' @ mid @ '']'' @ post" by simp
    with no show ?thesis by blast
  qed
qed

lemma summary_distinct:
  "cmts \<noteq> [] \<Longrightarrow> generateSummaryComment e cmts prData \<noteq> no_issues_summary"
  by (simp add: generateSummaryComment_def no_issues_summary_def summary_header_def)

lemma generateReview_failure_cause:
  assumes "fst (generateReview e prData cs) = Inl m"
  shows "\<exists>k msg. 1 \<le> k \<and> k \<le> 5 \<and> generateContent e k = Inl msg
           \<and> m = throw_failed (Some msg)"
proof -
  have "(1::nat) \<le> maxRetries" by (simp add: maxRetries_def)
  from generateReview_from_run [OF this, of e None cs]
  obtain n where n: "1 \<le> n" "n \<le> maxRetries"
    "fst (generateReview_from e 1 None cs) =
       (case generateContent e n of
          Inr t \<Rightarrow> Inr (parseReviewResponse e t)
        | Inl m \<Rightarrow> Inl (throw_failed (Some m)))" by blast
  with assms obtain msg where "generateContent e n = Inl msg" "m = throw_failed (Some msg)"
    by (auto simp: generateReview_def split: sum.splits)
  with n(1,2) show ?thesis by (auto simp: maxRetries_def)
qed

text \<open>
  C3. When the first parse of a response throws, \<open>parseReviewResponse\<close> hands the text
  between the outermost brackets of the raw response to \<open>JSON.parse\<close>, and returns the
  empty list when the brackets are missing or that second parse fails, throws or gives
  no array. The text handed over is found whenever the response has an opening bracket
  before a closing one: it runs from the first opening bracket to the last closing one,
  and the result is what \<open>JSON.parse\<close> and the cleaning of the comments make of it.
  A response with no opening bracket before a closing one gives the empty list. The
  generation step returns what the parser returns: \<open>generateReview\<close> fails only with
  the error of a failed model call. The summary of an empty list is the no-issues text,
  which no non-empty list gets.
\<close>

theorem parse_failure_degrades:
  assumes "primary_parse e text = Inl x"
  shows "parseReviewResponse e text =
           (case jsonPart text of
              None \<Rightarrow> []
            | Some part \<Rightarrow>
                (case JSON_parse e part of
                   Some (JArr parsed) \<Rightarrow>
                     (case clean_comments e parsed of Inr cs \<Rightarrow> cs | Inl y \<Rightarrow> [])
                 | _ \<Rightarrow> []))
     \<and> (\<forall>part. jsonPart text = Some part \<longrightarrow>
           (\<exists>pre mid post. text = pre @ part @ post \<and> part = ''['' @ mid @ '']''
              \<and> CHR ''['' \<notin> set pre \<and> CHR '']'' \<notin> set post))
     \<and> (\<forall>pre mid post.
           text = pre @ ''['' @ mid @ '']'' @ post
           \<and> CHR ''['' \<notin> set pre \<and> CHR '']'' \<notin> set post \<longrightarrow>
             jsonPart text = Some (''['' @ mid @ '']'')
             \<and> parseReviewResponse e text =
                 (case JSON_parse e (''['' @ mid @ '']'') of
                    Some (JArr parsed) \<Rightarrow>
                      (case clean_comments e parsed of Inr cs \<Rightarrow> cs | Inl y \<Rightarrow> [])
                  | _ \<Rightarrow> []))
     \<and> (jsonPart text = None
          \<longleftrightarrow> (\<nexists>pre mid post. text = pre @ ''['' @ mid @ '']'' @ post))
     \<and> ((\<nexists>pre mid post. text = pre @ ''['' @ mid @ '']'' @ post) \<longrightarrow>
           parseReviewResponse e text = [])
     \<and> ((\<forall>cs. fallback_parse e text \<noteq> Inr (Some cs)) \<longrightarrow> parseReviewResponse e text = [])
     \<and> (generateContent e 1 = Inr text \<longrightarrow>
           fst (generateReview e prData cs) = Inr (parseReviewResponse e text))
     \<and> (\<forall>m. fst (generateReview e prData cs) = Inl m \<longrightarrow>
           (\<exists>k msg. 1 \<le> k \<and> k \<le> 5 \<and> generateContent e k = Inl msg
              \<and> m = throw_failed (Some msg)))
     \<and> generateSummaryComment e [] prData = no_issues_summary
     \<and> (\<forall>cmts. cmts \<noteq> [] \<longrightarrow> generateSummaryComment e cmts prData \<noteq> no_issues_summary)"
proof -
  have a: "parseReviewResponse e text =
           (case jsonPart text of
              None \<Rightarrow> []
            | Some part \<Rightarrow>
                (case JSON_parse e part of
                   Some (JArr parsed) \<Rightarrow>
                     (case clean_comments e parsed of Inr cs \<Rightarrow> cs | Inl y \<Rightarrow> [])
                 | _ \<Rightarrow> []))"
    using assms
    by (simp add: parseReviewResponse_def fallback_parse_def
        split: option.splits jsval.splits sum.splits)
  have b: "(\<forall>cs. fallback_parse e text \<noteq> Inr (Some cs)) \<longrightarrow> parseReviewResponse e text = []"
    using assms by (auto simp: parseReviewResponse_def split: sum.splits option.splits)
  have c: "generateContent e 1 = Inr text \<longrightarrow>
           fst (generateReview e prData cs) = Inr (parseReviewResponse e text)"
    by (simp add: generateReview_def generateReview_from.simps [of e "Suc 0"] maxRetries_def)
  have d: "generateSummaryComment e [] prData = no_issues_summary"
    by (simp add: generateSummaryComment_def)
  have f: "\<forall>pre mid post.
           text = pre @ ''['' @ mid @ '']'' @ post
           \<and> CHR ''['' \<notin> set pre \<and> CHR '']'' \<notin> set post \<longrightarrow>
             jsonPart text = Some (''['' @ mid @ '']'')
             \<and> parseReviewResponse e text =
                 (case JSON_parse e (''['' @ mid @ '']'') of
                    Some (JArr parsed) \<Rightarrow>
                      (case clean_comments e parsed of Inr cs \<Rightarrow> cs | Inl y \<Rightarrow> [])
                  | _ \<Rightarrow> [])"
  proof (intro allI impI)
    fix pre mid post
    assume t: "text = pre @ ''['' @ mid @ '']'' @ post
           \<and> CHR ''['' \<notin> set pre \<and> CHR '']'' \<notin> set post"
    then have p: "jsonPart text = Some (''['' @ mid @ '']'')"
      using jsonPart_found [of pre post mid] by simp
    with a show "jsonPart text = Some (''['' @ mid @ '']'')
             \<and> parseReviewResponse e text =
                 (case JSON_parse e (''['' @ mid @ '']'') of
                    Some (JArr parsed) \<Rightarrow>
                      (case clean_comments e parsed of Inr cs \<Rightarrow> cs | Inl y \<Rightarrow> [])
                  | _ \<Rightarrow> [])"
      by (simp only: option.case)
  qed
  have g: "(\<nexists>pre mid post. text = pre @ ''['' @ mid @ '']'' @ post) \<longrightarrow>
           parseReviewResponse e text = []"
  proof
    assume "\<nexists>pre mid post. text = pre @ ''['' @ mid @ '']'' @ post"
    then have "jsonPart text = None" using jsonPart_None_iff by blast
    with a show "parseReviewResponse e text = []" by simp
  qed
  have o: "\<forall>part. jsonPart text = Some part \<longrightarrow>
           (\<exists>pre mid post. text = pre @ part @ post \<and> part = ''['' @ mid @ '']''
              \<and> CHR ''['' \<notin> set pre \<and> CHR '']'' \<notin> set post)"
    using jsonPart_outermost by blast
  have i: "jsonPart text = None
          \<longleftrightarrow> (\<nexists>pre mid post. text = pre @ ''['' @ mid @ '']'' @ post)"
    by (rule jsonPart_None_iff)
  have m: "\<forall>m. fst (generateReview e prData cs) = Inl m \<longrightarrow>
           (\<exists>k msg. 1 \<le> k \<and> k \<le> 5 \<and> generateContent e k = Inl msg
              \<and> m = throw_failed (Some msg))"
    using generateReview_failure_cause by blast
  have n: "\<forall>cmts. cmts \<noteq> [] \<longrightarrow> generateSummaryComment e cmts prData \<noteq> no_issues_summary"
    using summary_distinct by blast
  show ?thesis
    by (intro conjI) (rule a o f i g b c m d n)+
qed

theorem parse_failure_degrades_witness:
  "primary_parse env_ok ''Result: [oops] done'' = Inl SyntaxError
   \<and> jsonPart ''Result: [oops] done'' = Some ''[oops]''
   \<and> jsonPart ''[oops]'' = Some ''[oops]''
   \<and> jsonPart ''] oops ['' = None
   \<and> JSON_parse env_ok ''[oops]'' = None
   \<and> parseReviewResponse env_ok ''Result: [oops] done'' = []
   \<and> generateSummaryComment env_ok (parseReviewResponse env_ok ''Result: [oops] done'')
        prData_one = no_issues_summary"
proof -
  have h: "primary_parse env_ok ''Result: [oops] done'' = Inl SyntaxError"
    by code_simp
  have p: "jsonPart ''Result: [oops] done'' = Some ''[oops]''"
    by code_simp
  have p0: "jsonPart ''[oops]'' = Some ''[oops]''"
    by code_simp
  have p1: "jsonPart ''] oops ['' = None"
    by code_simp
  have j: "JSON_parse env_ok ''[oops]'' = None"
    by (simp add: env_ok_def)
  note main = parse_failure_degrades [OF h, of prData_one "[]"]
  from main have "parseReviewResponse env_ok ''Result: [oops] done'' =
           (case jsonPart ''Result: [oops] done'' of
              None \<Rightarrow> []
            | Some part \<Rightarrow>
                (case JSON_parse env_ok part of
                   Some (JArr parsed) \<Rightarrow>
                     (case clean_comments env_ok parsed of Inr cs \<Rightarrow> cs | Inl y \<Rightarrow> [])
                 | _ \<Rightarrow> []))"
    by (rule conjunct1)
  then have r: "parseReviewResponse env_ok ''Result: [oops] done'' = []"
    by (simp add: p j)
  from main have s: "generateSummaryComment env_ok [] prData_one = no_issues_summary"
    by blast
  from h p p0 p1 j r s show ?thesis by simp
qed

section \<open>The retry request\<close>

text \<open>
  C4. A retry request that names a stored record, with both query parameters given:
  \<^item> if the record is \<open>failed\<close> and the store accepts the save, the request is accepted,
    the run is started, and the stored record is the old one with \<open>retryCount\<close> one
    higher, status \<open>pending\<close> and no \<open>errorMessage\<close>; if the store rejects the save, its
    error is thrown, the store is as before and no run is started;
  \<^item> if the record is \<open>completed\<close> or \<open>in_progress\<close>, the request is rejected with an
    \<open>AppError\<close> of status 400, nothing is saved and no run is started;
  \<^item> whatever the status, the store is left as it was or holds that incremented
    record: no request resets \<open>retryCount\<close>.
\<close>

theorem retryReview_eligibility:
  assumes params: "ownr \<noteq> []" "rpo \<noteq> []"
    and found: "findByPR e ownr rpo prId w = (Inr (Some r), w1)"
  shows "(status r = Failed \<and> dbError e (dbOps w1) = None \<longrightarrow>
           (\<exists>w2. retryReview e (Some ownr) (Some rpo) prId w =
                   (Inr \<lparr>res_message = ''Review retry initiated'', res_reviewId = Some (rid r),
                         res_retryCount = Some (retryCount r + 1)\<rparr>,
                    w2, Some (ownr, rpo, prId, rid r))
              \<and> find (is_pr ownr rpo prId) (store w2)
                  = Some (r\<lparr>retryCount := retryCount r + 1, status := Pending,
                             errorMessage := None\<rparr>)))
       \<and> (\<forall>m. status r = Failed \<and> dbError e (dbOps w1) = Some m \<longrightarrow>
             (\<exists>w2. retryReview e (Some ownr) (Some rpo) prId w = (Inl (Error m), w2, None)
                \<and> store w2 = store w))
       \<and> (status r = Completed \<longrightarrow>
             retryReview e (Some ownr) (Some rpo) prId w
               = (Inl (AppError ''Review already completed'' 400), w1, None)
             \<and> store w1 = store w \<and> saved w1 = saved w \<and> calls w1 = calls w)
       \<and> (status r = InProgress \<longrightarrow>
             retryReview e (Some ownr) (Some rpo) prId w
               = (Inl (AppError ''Review already in progress'' 400), w1, None)
             \<and> store w1 = store w \<and> saved w1 = saved w \<and> calls w1 = calls w)
       \<and> (store (fst (snd (retryReview e (Some ownr) (Some rpo) prId w))) = store w
            \<or> store (fst (snd (retryReview e (Some ownr) (Some rpo) prId w)))
                = put (r\<lparr>retryCount := retryCount r + 1, status := Pending,
                          errorMessage := None\<rparr>) (store w))"
proof -
  define r' where
    "r' = r\<lparr>retryCount := retryCount r + 1, status := Pending, errorMessage := None\<rparr>"
  from findByPR_found [OF found] have f: "find (is_pr ownr rpo prId) (store w) = Some r"
    "is_pr ownr rpo prId r" and w1: "w1 = w\<lparr>dbOps := Suc (dbOps w)\<rparr>" by simp_all
  have r': "is_pr ownr rpo prId r'" "rid r' = rid r"
    using f(2) by (simp_all add: r'_def is_pr_def)
  have look: "find (is_pr ownr rpo prId) (put r' (store w)) = Some r'"
    by (rule find_put_same [OF f(1) r'])
  have A: "status r = Failed \<and> dbError e (dbOps w1) = None \<longrightarrow>
           (\<exists>w2. retryReview e (Some ownr) (Some rpo) prId w =
                   (Inr \<lparr>res_message = ''Review retry initiated'', res_reviewId = Some (rid r),
                         res_retryCount = Some (retryCount r + 1)\<rparr>,
                    w2, Some (ownr, rpo, prId, rid r))
              \<and> find (is_pr ownr rpo prId) (store w2) = Some r')"
    using params found look w1
    by (auto simp: retryReview_def incrementRetry_def save_def Let_def r'_def)
  have A': "\<forall>m. status r = Failed \<and> dbError e (dbOps w1) = Some m \<longrightarrow>
             (\<exists>w2. retryReview e (Some ownr) (Some rpo) prId w = (Inl (Error m), w2, None)
                \<and> store w2 = store w)"
    using params found w1
    by (auto simp: retryReview_def incrementRetry_def save_def Let_def)
  have B: "status r = Completed \<longrightarrow>
             retryReview e (Some ownr) (Some rpo) prId w
               = (Inl (AppError ''Review already completed'' 400), w1, None)
             \<and> store w1 = store w \<and> saved w1 = saved w \<and> calls w1 = calls w"
    using params found w1 by (simp add: retryReview_def)
  have C: "status r = InProgress \<longrightarrow>
             retryReview e (Some ownr) (Some rpo) prId w
               = (Inl (AppError ''Review already in progress'' 400), w1, None)
             \<and> store w1 = store w \<and> saved w1 = saved w \<and> calls w1 = calls w"
    using params found w1 by (simp add: retryReview_def)
  have D: "store (fst (snd (retryReview e (Some ownr) (Some rpo) prId w))) = store w
            \<or> store (fst (snd (retryReview e (Some ownr) (Some rpo) prId w)))
                = put r' (store w)"
    using params found w1
    by (auto simp: retryReview_def incrementRetry_def save_def Let_def r'_def
        split: option.splits)
  from A A' B C D show ?thesis unfolding r'_def by blast
qed

theorem retryReview_eligibility_witness:
  "findByPR env_ok ''o'' ''r'' 7 (world_of [review_failed])
     = (Inr (Some review_failed), (world_of [review_failed])\<lparr>dbOps := 1\<rparr>)
   \<and> status review_failed = Failed \<and> retryCount review_failed = 0
   \<and> (\<exists>w2. retryReview env_ok (Some ''o'') (Some ''r'') 7 (world_of [review_failed]) =
              (Inr \<lparr>res_message = ''Review retry initiated'', res_reviewId = Some 1,
                    res_retryCount = Some 1\<rparr>,
               w2, Some (''o'', ''r'', 7, 1))
         \<and> find (is_pr ''o'' ''r'' 7) (store w2)
             = Some (review_failed\<lparr>retryCount := 1, status := Pending, errorMessage := None\<rparr>))
   \<and> findByPR env_ok ''o'' ''r'' 7 (world_of [review_completed])
     = (Inr (Some review_completed), (world_of [review_completed])\<lparr>dbOps := 1\<rparr>)
   \<and> status review_completed = Completed
   \<and> retryReview env_ok (Some ''o'') (Some ''r'') 7 (world_of [review_completed])
       = (Inl (AppError ''Review already completed'' 400),
          (world_of [review_completed])\<lparr>dbOps := 1\<rparr>, None)"
proof -
  have p: "''o'' \<noteq> []" "''r'' \<noteq> []" by simp_all
  have f1: "findByPR env_ok ''o'' ''r'' 7 (world_of [review_failed])
     = (Inr (Some review_failed), (world_of [review_failed])\<lparr>dbOps := 1\<rparr>)"
    by (simp add: findByPR_def env_ok_def world_of_def review_failed_def review_pending_def
        is_pr_def)
  have f2: "findByPR env_ok ''o'' ''r'' 7 (world_of [review_completed])
     = (Inr (Some review_completed), (world_of [review_completed])\<lparr>dbOps := 1\<rparr>)"
    by (simp add: findByPR_def env_ok_def world_of_def review_completed_def review_pending_def
        is_pr_def)
  have s: "status review_failed = Failed" "retryCount review_failed = 0"
    "rid review_failed = 1" "status review_completed = Completed"
    by (simp_all add: review_failed_def review_completed_def review_pending_def)
  have ok: "dbError env_ok (dbOps ((world_of [review_failed])\<lparr>dbOps := 1\<rparr>)) = None"
    by (simp add: env_ok_def)
  from retryReview_eligibility [OF p f1] s ok
  have a: "\<exists>w2. retryReview env_ok (Some ''o'') (Some ''r'') 7 (world_of [review_failed]) =
              (Inr \<lparr>res_message = ''Review retry initiated'', res_reviewId = Some 1,
                    res_retryCount = Some 1\<rparr>,
               w2, Some (''o'', ''r'', 7, 1))
         \<and> find (is_pr ''o'' ''r'' 7) (store w2)
             = Some (review_failed\<lparr>retryCount := 1, status := Pending, errorMessage := None\<rparr>)"
    by simp
  from retryReview_eligibility [OF p f2] s
  have b: "retryReview env_ok (Some ''o'') (Some ''r'') 7 (world_of [review_completed])
       = (Inl (AppError ''Review already completed'' 400),
          (world_of [review_completed])\<lparr>dbOps := 1\<rparr>, None)"
    by simp
  from f1 f2 s a b show ?thesis by simp
qed

section \<open>The trigger gate\<close>

text \<open>
  C5 (as amended). A \<open>synchronize\<close> event for a pull request that is not a draft, on a
  key whose record is \<open>completed\<close>, when the store accepts the save: the record is
  saved with \<open>commitSha\<close> set to the head commit of the event, status \<open>pending\<close> and no
  \<open>errorMessage\<close>, and then the run for that record is started; the run will load the
  refreshed record. No call leaves the process before the run.
\<close>

theorem synchronize_refreshes_unless_draft:
  assumes "action ev = ''synchronize''" and "\<not> draft ev"
    and found: "findByPR e (owner_login ev) (repo_name ev) (number ev) w = (Inr (Some r), w1)"
    and "status r = Completed"
    and "dbError e (dbOps w1) = None"
  shows "\<exists>w2. handlePullRequest e ev w =
           (Inr (reply ''PR review started'' (Some (rid r))), w2,
            Some (owner_login ev, repo_name ev, number ev, rid r))
         \<and> store w2 = put (r\<lparr>prInfo := (prInfo r)\<lparr>commitSha := head_sha ev\<rparr>,
                               status := Pending, errorMessage := None\<rparr>) (store w)
         \<and> find (\<lambda>x. rid x = rid r) (store w2)
             = Some (r\<lparr>prInfo := (prInfo r)\<lparr>commitSha := head_sha ev\<rparr>,
                        status := Pending, errorMessage := None\<rparr>)
         \<and> calls w2 = calls w"
proof -
  define r' where "r' = r\<lparr>prInfo := (prInfo r)\<lparr>commitSha := head_sha ev\<rparr>,
                        status := Pending, errorMessage := None\<rparr>"
  from findByPR_found [OF found] have mem: "r \<in> set (store w)"
    and w1: "w1 = w\<lparr>dbOps := Suc (dbOps w)\<rparr>" by simp_all
  have "rid r' \<in> set (map rid (store w))" using mem by (force simp: r'_def)
  from find_put_rid [OF this] have look: "find (\<lambda>x. rid x = rid r) (put r' (store w)) = Some r'"
    by (simp add: r'_def)
  show ?thesis
    using assms(1,2,4,5) found look w1 unfolding r'_def
    by (auto simp: handlePullRequest_def relevantActions_def save_def Let_def)
qed

theorem synchronize_refreshes_unless_draft_witness:
  "action (ev_opened\<lparr>action := ''synchronize''\<rparr>) = ''synchronize''
   \<and> \<not> draft (ev_opened\<lparr>action := ''synchronize''\<rparr>)
   \<and> findByPR env_ok ''o'' ''r'' 7 (world_of [review_completed])
       = (Inr (Some review_completed), (world_of [review_completed])\<lparr>dbOps := 1\<rparr>)
   \<and> status review_completed = Completed
   \<and> commitSha (prInfo review_completed) = ''A''
   \<and> (\<exists>w2. handlePullRequest env_ok (ev_opened\<lparr>action := ''synchronize''\<rparr>)
              (world_of [review_completed]) =
             (Inr (reply ''PR review started'' (Some 1)), w2, Some (''o'', ''r'', 7, 1))
          \<and> find (\<lambda>x. rid x = 1) (store w2)
              = Some (review_completed\<lparr>prInfo := (prInfo review_completed)\<lparr>commitSha := ''B''\<rparr>,
                        status := Pending, errorMessage := None\<rparr>)
          \<and> calls w2 = [])"
proof -
  let ?ev = "ev_opened\<lparr>action := ''synchronize''\<rparr>"
  have e: "action ?ev = ''synchronize''" "\<not> draft ?ev" "owner_login ?ev = ''o''"
    "repo_name ?ev = ''r''" "number ?ev = 7" "head_sha ?ev = ''B''"
    by (simp_all add: ev_opened_def)
  have f: "findByPR env_ok (owner_login ?ev) (repo_name ?ev) (number ?ev)
             (world_of [review_completed])
       = (Inr (Some review_completed), (world_of [review_completed])\<lparr>dbOps := 1\<rparr>)"
    unfolding e
    by (simp add: findByPR_def env_ok_def world_of_def review_completed_def review_pending_def
        is_pr_def)
  have s: "status review_completed = Completed" "rid review_completed = 1"
    "commitSha (prInfo review_completed) = ''A''"
    by (simp_all add: review_completed_def review_pending_def)
  have ok: "dbError env_ok (dbOps ((world_of [review_completed])\<lparr>dbOps := 1\<rparr>)) = None"
    by (simp add: env_ok_def)
  have c: "calls (world_of [review_completed]) = []" by (simp add: world_of_def)
  from synchronize_refreshes_unless_draft [OF e(1) e(2) f s(1) ok]
  have "\<exists>w2. handlePullRequest env_ok ?ev (world_of [review_completed]) =
             (Inr (reply ''PR review started'' (Some 1)), w2, Some (''o'', ''r'', 7, 1))
          \<and> find (\<lambda>x. rid x = 1) (store w2)
              = Some (review_completed\<lparr>prInfo := (prInfo review_completed)\<lparr>commitSha := ''B''\<rparr>,
                        status := Pending, errorMessage := None\<rparr>)
          \<and> calls w2 = []"
    unfolding e s c by blast
  with e f s show ?thesis by simp
qed

text \<open>
  C5, counterexample. The claim as stated fails for a draft: a \<open>synchronize\<close> event for
  a draft pull request, now at commit \<open>B\<close>, on a key whose record is \<open>completed\<close> at
  commit \<open>A\<close>, is skipped; the store still holds the completed record at commit \<open>A\<close>,
  nothing is saved and no run is started.
\<close>

theorem synchronize_draft_not_refreshed:
  "action (ev_opened\<lparr>action := ''synchronize'', draft := True\<rparr>) = ''synchronize''
   \<and> head_sha (ev_opened\<lparr>action := ''synchronize'', draft := True\<rparr>) = ''B''
   \<and> status review_completed = Completed \<and> commitSha (prInfo review_completed) = ''A''
   \<and> handlePullRequest env_ok (ev_opened\<lparr>action := ''synchronize'', draft := True\<rparr>)
        (world_of [review_completed])
      = (Inr (reply ''Draft PR skipped'' None), (world_of [review_completed])\<lparr>dbOps := 1\<rparr>, None)
   \<and> store ((world_of [review_completed])\<lparr>dbOps := 1\<rparr>) = [review_completed]
   \<and> saved ((world_of [review_completed])\<lparr>dbOps := 1\<rparr>) = []"
  by (simp add: handlePullRequest_def relevantActions_def findByPR_def is_pr_def env_ok_def
      world_of_def ev_opened_def review_completed_def review_pending_def)

text \<open>
  C6. An \<open>opened\<close> event on a key whose record is \<open>completed\<close> is answered with
  \<open>PR already reviewed\<close>: the store is the same, nothing is handed to \<open>save()\<close>, no call
  leaves the process and no run is started.
\<close>

theorem opened_on_completed_is_skipped:
  assumes "action ev = ''opened''"
    and "findByPR e (owner_login ev) (repo_name ev) (number ev) w = (Inr (Some r), w1)"
    and "status r = Completed"
  shows "handlePullRequest e ev w
           = (Inr (reply ''PR already reviewed'' (Some (rid r))), w1, None)
     \<and> store w1 = store w \<and> saved w1 = saved w \<and> calls w1 = calls w
     \<and> botUser w1 = botUser w \<and> dates w1 = dates w"
  using assms
  by (auto simp: handlePullRequest_def relevantActions_def findByPR_def split: option.splits)

theorem opened_on_completed_is_skipped_witness:
  "action ev_opened = ''opened''
   \<and> findByPR env_ok ''o'' ''r'' 7 (world_of [review_completed])
       = (Inr (Some review_completed), (world_of [review_completed])\<lparr>dbOps := 1\<rparr>)
   \<and> status review_completed = Completed
   \<and> handlePullRequest env_ok ev_opened (world_of [review_completed])
       = (Inr (reply ''PR already reviewed'' (Some 1)),
          (world_of [review_completed])\<lparr>dbOps := 1\<rparr>, None)"
proof -
  have e: "action ev_opened = ''opened''" "owner_login ev_opened = ''o''"
    "repo_name ev_opened = ''r''" "number ev_opened = 7"
    by (simp_all add: ev_opened_def)
  have f: "findByPR env_ok (owner_login ev_opened) (repo_name ev_opened) (number ev_opened)
             (world_of [review_completed])
       = (Inr (Some review_completed), (world_of [review_completed])\<lparr>dbOps := 1\<rparr>)"
    unfolding e
    by (simp add: findByPR_def env_ok_def world_of_def review_completed_def review_pending_def
        is_pr_def)
  have s: "status review_completed = Completed" "rid review_completed = 1"
    by (simp_all add: review_completed_def review_pending_def)
  from opened_on_completed_is_skipped [OF e(1) f s(1)] e f s show ?thesis by simp
qed

text \<open>
  C7 (as amended). A relevant event for a draft pull request is skipped without a
  record being created or saved and without a run: the answer is \<open>Draft PR skipped\<close>,
  unless the key has a \<open>completed\<close> record and the action is not \<open>synchronize\<close>, in which
  case the check for a completed record, which comes first, answers
  \<open>PR already reviewed\<close>. With no record for the key the answer is \<open>Draft PR skipped\<close>.
\<close>

theorem draft_is_skipped_after_completed_check:
  assumes "action ev \<in> set relevantActions" and "draft ev"
    and found: "findByPR e (owner_login ev) (repo_name ev) (number ev) w = (Inr existing, w1)"
  shows "handlePullRequest e ev w =
           (Inr (if (\<exists>r. existing = Some r \<and> status r = Completed)
                    \<and> action ev \<noteq> ''synchronize''
                 then reply ''PR already reviewed'' (map_option rid existing)
                 else reply ''Draft PR skipped'' None), w1, None)
         \<and> store w1 = store w \<and> saved w1 = saved w \<and> calls w1 = calls w
         \<and> (existing = None \<longrightarrow>
               handlePullRequest e ev w = (Inr (reply ''Draft PR skipped'' None), w1, None))"
  using assms
  by (auto simp: handlePullRequest_def findByPR_def split: option.splits)

theorem draft_is_skipped_after_completed_check_witness:
  "action (ev_opened\<lparr>draft := True\<rparr>) \<in> set relevantActions
   \<and> draft (ev_opened\<lparr>draft := True\<rparr>)
   \<and> findByPR env_ok ''o'' ''r'' 7 (world_of []) = (Inr None, (world_of [])\<lparr>dbOps := 1\<rparr>)
   \<and> handlePullRequest env_ok (ev_opened\<lparr>draft := True\<rparr>) (world_of [])
       = (Inr (reply ''Draft PR skipped'' None), (world_of [])\<lparr>dbOps := 1\<rparr>, None)
   \<and> store ((world_of [])\<lparr>dbOps := 1\<rparr>) = []"
proof -
  let ?ev = "ev_opened\<lparr>draft := True\<rparr>"
  have e: "action ?ev \<in> set relevantActions" "draft ?ev" "owner_login ?ev = ''o''"
    "repo_name ?ev = ''r''" "number ?ev = 7"
    by (simp_all add: ev_opened_def relevantActions_def)
  have f: "findByPR env_ok (owner_login ?ev) (repo_name ?ev) (number ?ev) (world_of [])
       = (Inr None, (world_of [])\<lparr>dbOps := 1\<rparr>)"
    unfolding e by (simp add: findByPR_def env_ok_def world_of_def)
  from draft_is_skipped_after_completed_check [OF e(1) e(2) f]
  have "handlePullRequest env_ok ?ev (world_of [])
       = (Inr (reply ''Draft PR skipped'' None), (world_of [])\<lparr>dbOps := 1\<rparr>, None)"
    by simp
  with e f show ?thesis by (simp add: world_of_def)
qed

text \<open>
  C7, counterexample. The claim as stated fails where the two checks disagree: an
  \<open>opened\<close> event for a draft pull request on a key whose record is \<open>completed\<close> is
  answered with \<open>PR already reviewed\<close>, not with \<open>Draft PR skipped\<close>.
\<close>

theorem draft_on_completed_is_already_reviewed:
  "action (ev_opened\<lparr>draft := True\<rparr>) \<in> set relevantActions
   \<and> draft (ev_opened\<lparr>draft := True\<rparr>)
   \<and> fst (handlePullRequest env_ok (ev_opened\<lparr>draft := True\<rparr>) (world_of [review_completed]))
       = Inr (reply ''PR already reviewed'' (Some 1))
   \<and> fst (handlePullRequest env_ok (ev_opened\<lparr>draft := True\<rparr>) (world_of [review_completed]))
       \<noteq> Inr (reply ''Draft PR skipped'' None)"
  by (simp add: handlePullRequest_def relevantActions_def findByPR_def is_pr_def env_ok_def
      world_of_def ev_opened_def review_completed_def review_pending_def reply_def)

section \<open>The missing record and the duplicate check\<close>

text \<open>
  C9. When the lookup by id finds no record, \<open>processReviewAsync\<close> throws
  \<open>Review record not found\<close> to its caller and does nothing else: the state differs
  only in the count of store operations, so nothing was handed to \<open>save()\<close> (in
  particular not by \<open>markFailed\<close>), no call left the process, and the function did not
  run a second time.
\<close>

theorem missing_record_aborts:
  assumes "findById e reviewId w = (Inr None, w1)"
  shows "processReviewAsync e ownr rpo pullNumber reviewId w
           = (Inl ''Review record not found'', None, w\<lparr>dbOps := Suc (dbOps w)\<rparr>)
     \<and> store (w\<lparr>dbOps := Suc (dbOps w)\<rparr>) = store w
     \<and> saved (w\<lparr>dbOps := Suc (dbOps w)\<rparr>) = saved w
     \<and> calls (w\<lparr>dbOps := Suc (dbOps w)\<rparr>) = calls w"
  using assms not_found_not_overloaded
  by (auto simp: processReviewAsync_def processReviewAsync_try_def processReviewAsync_catch_def
      findById_def split: option.splits)

theorem missing_record_aborts_witness:
  "findById env_ok 1 (world_of []) = (Inr None, (world_of [])\<lparr>dbOps := 1\<rparr>)
   \<and> processReviewAsync env_ok ''o'' ''r'' 7 1 (world_of [])
       = (Inl ''Review record not found'', None, (world_of [])\<lparr>dbOps := 1\<rparr>)"
proof -
  have f: "findById env_ok 1 (world_of []) = (Inr None, (world_of [])\<lparr>dbOps := 1\<rparr>)"
    by (simp add: findById_def env_ok_def world_of_def)
  from missing_record_aborts [OF f, of "''o''" "''r''" 7] f show ?thesis
    by (simp add: world_of_def)
qed

text \<open>
  C10. \<open>hasAlreadyReviewed\<close> never throws: it returns a boolean, and the boolean is
  \<open>false\<close> whenever listing the reviews fails, or the bot user is not cached and asking
  for it fails, or anything else in its \<open>try\<close> block throws.
\<close>

theorem hasAlreadyReviewed_fails_open:
  "(\<exists>b. fst (hasAlreadyReviewed e ownr rpo pullNumber w) = Inr b)
   \<and> ((\<exists>m. listReviews e = Inl m) \<or> (botUser w = None \<and> (\<exists>m. getAuthenticated e = Inl m))
        \<longrightarrow> fst (hasAlreadyReviewed e ownr rpo pullNumber w) = Inr False)
   \<and> ((\<exists>m. fst (hasAlreadyReviewed_try e ownr rpo pullNumber w) = Inl m)
        \<longrightarrow> fst (hasAlreadyReviewed e ownr rpo pullNumber w) = Inr False)"
  by (auto simp: hasAlreadyReviewed_def hasAlreadyReviewed_try_def getBotUser_def Let_def
      split: prod.splits sum.splits option.splits)

theorem hasAlreadyReviewed_fails_open_witness:
  "listReviews (env_ok\<lparr>listReviews := Inl ''Bad credentials''\<rparr>) = Inl ''Bad credentials''
   \<and> fst (hasAlreadyReviewed (env_ok\<lparr>listReviews := Inl ''Bad credentials''\<rparr>) ''o'' ''r'' 7
        (world_of [review_pending])) = Inr False
   \<and> botUser (world_of [review_pending]) = None
   \<and> getAuthenticated (env_ok\<lparr>getAuthenticated := Inl ''Bad credentials''\<rparr>)
       = Inl ''Bad credentials''
   \<and> fst (hasAlreadyReviewed (env_ok\<lparr>getAuthenticated := Inl ''Bad credentials''\<rparr>) ''o'' ''r'' 7
        (world_of [review_pending])) = Inr False"
proof -
  have l: "listReviews (env_ok\<lparr>listReviews := Inl ''Bad credentials''\<rparr>) = Inl ''Bad credentials''"
    by simp
  have g: "getAuthenticated (env_ok\<lparr>getAuthenticated := Inl ''Bad credentials''\<rparr>)
       = Inl ''Bad credentials''"
    by simp
  have u: "botUser (world_of [review_pending]) = None" by (simp add: world_of_def)
  from hasAlreadyReviewed_fails_open
    [of "env_ok\<lparr>listReviews := Inl ''Bad credentials''\<rparr>" "''o''" "''r''" 7
        "world_of [review_pending]"] l
  have a: "fst (hasAlreadyReviewed (env_ok\<lparr>listReviews := Inl ''Bad credentials''\<rparr>) ''o'' ''r'' 7
        (world_of [review_pending])) = Inr False"
    by blast
  from hasAlreadyReviewed_fails_open
    [of "env_ok\<lparr>getAuthenticated := Inl ''Bad credentials''\<rparr>" "''o''" "''r''" 7
        "world_of [review_pending]"] g u
  have b: "fst (hasAlreadyReviewed (env_ok\<lparr>getAuthenticated := Inl ''Bad credentials''\<rparr>) ''o'' ''r'' 7
        (world_of [review_pending])) = Inr False"
    by blast
  from l g u a b show ?thesis by simp
qed


end
